theory Spec2Isabelle
  imports Main "HOL-Library.Sublist"
begin

section \<open>Journal Lookup Tool: data model\<close>

text \<open>
  The development embeds \<^verbatim>\<open>Journal_Lookup_Tool.py\<close>. Python \<^verbatim>\<open>str\<close> values are
  modelled as \<^typ>\<open>string\<close>, one \<^typ>\<open>char\<close> per code point (so the model covers
  the code points below 256). Exceptions are values of \<open>exn\<close>; a function that can raise
  returns \<open>exn + 'a\<close> with \<open>Inl\<close> the exception.
\<close>

datatype exn =
    HTTPError "nat option"
  | AttributeError
  | UnboundLocalError
  | KeyError
  | IndexError
  | ValueError
  | TypeError

text \<open>
  \<open>HTTPError r\<close>: \<open>r\<close> is what \<^verbatim>\<open>e.response.status_code\<close> evaluates to on the
  exception object, \<open>None\<close> when the object has no \<^verbatim>\<open>response\<close> attribute.
\<close>

subsection \<open>Raw records as returned by the remote service\<close>

record date_entry =
  Year :: "string option"
  Month :: "string option"
  Day :: "string option"

record author =
  LastName :: "string option"
  AffiliationInfo :: "string option list option"
    \<comment> \<open>the list of affiliation entries, each with an optional \<^verbatim>\<open>Affiliation\<close> key\<close>

record article_body =
  ArticleTitle :: "string option"
  AbstractText :: "string list option option"
    \<comment> \<open>outer option: key \<^verbatim>\<open>Abstract\<close>; inner option: key \<^verbatim>\<open>AbstractText\<close>\<close>
  JournalTitle :: "string option option"
    \<comment> \<open>outer option: key \<^verbatim>\<open>Journal\<close>; inner option: key \<^verbatim>\<open>Title\<close>\<close>
  ArticleDate :: "date_entry list option"
  ELocationID :: "string list option"
  AuthorList :: "author list option"

record medline_citation =
  Article :: "article_body option"

record pubmed_article =
  MedlineCitation :: "medline_citation option"

record paper =
  PubmedArticle :: "pubmed_article list"

subsection \<open>Components: the normalised publication records\<close>

text \<open>
  A value that is either the extracted data or the placeholder string stored by an
  \<^verbatim>\<open>except KeyError\<close> branch.
\<close>

datatype 'a or_str = Data 'a | Str string

record component =
  Title :: string
  Abstract :: "string option"
  Journal :: "string option"
  Date :: "date_entry list or_str option"
  Link :: "string list or_str option"
  Authors :: "string list or_str option"
  Institution :: "string list option"

section \<open>Deduplication\<close>

text \<open>
  \<^verbatim>\<open>
  def remove_duplicates(components):
      seen = set()
      return [x for x in components if not (x["Title"] in seen or seen.add(x["Title"]))]
  \<close>
  \<^verbatim>\<open>seen.add\<close> returns \<^verbatim>\<open>None\<close>, so an element with an unseen title is kept and its
  title is added to \<open>seen\<close>.
\<close>

fun dedup_loop :: "string set \<Rightarrow> component list \<Rightarrow> component list" where
  "dedup_loop seen [] = []"
| "dedup_loop seen (x # xs) =
     (if Title x \<in> seen then dedup_loop seen xs
      else x # dedup_loop (insert (Title x) seen) xs)"

definition remove_duplicates :: "component list \<Rightarrow> component list" where
  "remove_duplicates components = dedup_loop {} components"

section \<open>Text layout\<close>

text \<open>
  \<open>isspace\<close> is \<^verbatim>\<open>str.isspace\<close> on the code points below 256; \<^verbatim>\<open>str.lstrip()\<close>
  removes the longest prefix of such characters.
\<close>

definition isspace :: "char \<Rightarrow> bool" where
  "isspace c = (c \<in> {CHR 0x09, CHR 0x0A, CHR 0x0B, CHR 0x0C, CHR 0x0D, CHR 0x1C, CHR 0x1D,
                      CHR 0x1E, CHR 0x1F, CHR 0x20, CHR 0x85, CHR 0xA0})"

definition lstrip :: "string \<Rightarrow> string" where
  "lstrip s = dropWhile isspace s"

text \<open>
  \<^verbatim>\<open>s.rfind(c, 0, e)\<close>: the highest index of \<open>c\<close> in \<^verbatim>\<open>s[0:e]\<close>; Python's \<open>-1\<close> is
  \<open>None\<close>.
\<close>

fun rfind_from :: "char \<Rightarrow> string \<Rightarrow> nat option" where
  "rfind_from c [] = None"
| "rfind_from c (x # xs) =
     (case rfind_from c xs of
        Some i \<Rightarrow> Some (Suc i)
      | None \<Rightarrow> if x = c then Some 0 else None)"

definition rfind :: "string \<Rightarrow> char \<Rightarrow> nat \<Rightarrow> nat option" where
  "rfind s c e = rfind_from c (take e s)"

text \<open>
  \<^verbatim>\<open>s.replace(old, new)\<close>: the non-overlapping occurrences of \<open>old\<close>, found from the
  left, are replaced.
\<close>

function replace :: "string \<Rightarrow> string \<Rightarrow> string \<Rightarrow> string" where
  "replace old new [] = (if old = [] then new else [])"
| "replace old new (c # cs) =
     (if old = [] then new @ c # replace old new cs
      else if prefix old (c # cs) then new @ replace old new (drop (length old) (c # cs))
      else c # replace old new cs)"
  by pat_completeness auto
termination
  by (relation "measure (\<lambda>(old, new, s). length s)") auto

text \<open>
  The chain of six \<^verbatim>\<open>.replace(tag, "")\<close> calls applied to titles and abstracts.
\<close>

definition strip_tags :: "string \<Rightarrow> string" where
  "strip_tags s =
     replace ''</sup>'' '''' (replace ''<sup>'' '''' (replace ''</i>'' '''' (replace ''<i>'' ''''
       (replace ''</sub>'' '''' (replace ''<sub>'' '''' s)))))"

text \<open>
  The chunking loop, written five times in \<^verbatim>\<open>get_pptx\<close> with different budgets:
  \<^verbatim>\<open>
  while len(text) > max_characters_per_line:
      split_index = text.rfind(" ", 0, max_characters_per_line)
      if split_index == -1:
          split_index = max_characters_per_line
      chunk = text[:split_index]
      text = text[split_index:].lstrip()
      run = p.add_run(); run.text = chunk + "\n"
  run = p.add_run(); run.text = text
  \<close>
  The loop need not end (budget 0 on a text with no leading space), so it is a partial
  function and \<open>None\<close> stands for a loop that never returns. The result lists the
  chunks in order followed by the final remainder; each chunk is written to the slide with
  a newline appended.
\<close>

partial_function (option) wrap_loop :: "nat \<Rightarrow> string \<Rightarrow> string list option" where
  "wrap_loop max_characters_per_line text =
     (if length text > max_characters_per_line then
        (let split_index = (case rfind text CHR '' '' max_characters_per_line of
                              None \<Rightarrow> max_characters_per_line
                            | Some i \<Rightarrow> i);
             chunk = take split_index text;
             rest = lstrip (drop split_index text)
         in Option.bind (wrap_loop max_characters_per_line rest) (\<lambda>chunks. Some (chunk # chunks)))
      else Some [text])"

declare wrap_loop.simps [code]

text \<open>
  The enclosing \<^verbatim>\<open>if len(text) > max_characters_per_line: ... else: run.text = text\<close>.
\<close>

definition wrap_field :: "nat \<Rightarrow> string \<Rightarrow> string list option" where
  "wrap_field max_characters_per_line text =
     (if length text > max_characters_per_line then wrap_loop max_characters_per_line text
      else Some [text])"

text \<open>\<^verbatim>\<open>sep.join(xs)\<close>\<close>

fun join :: "string \<Rightarrow> string list \<Rightarrow> string" where
  "join sep [] = []"
| "join sep [x] = x"
| "join sep (x # y # ys) = x @ sep @ join sep (y # ys)"


text \<open>
  Two predicates on texts, used to state when wrapping loses nothing: the only
  whitespace characters are single blanks, never two in a row; and every run of
  \<open>m\<close> consecutive characters contains a blank (no token is as long as the budget).
\<close>

fun single_spaced :: "string \<Rightarrow> bool" where
  "single_spaced [] = True"
| "single_spaced [c] = (\<not> isspace c \<or> c = CHR '' '')"
| "single_spaced (c # d # cs) =
     ((\<not> isspace c \<or> c = CHR '' '') \<and> \<not> (c = CHR '' '' \<and> d = CHR '' '') \<and> single_spaced (d # cs))"

fun every_token_below :: "nat \<Rightarrow> string \<Rightarrow> bool" where
  "every_token_below m [] = True"
| "every_token_below m (c # cs) =
     ((length (c # cs) < m \<or> CHR '' '' \<in> set (take m (c # cs))) \<and> every_token_below m cs)"

text \<open>The break position chosen by one iteration of the loop.\<close>

definition split_index :: "nat \<Rightarrow> string \<Rightarrow> nat" where
  "split_index m text = (case rfind text CHR '' '' m of None \<Rightarrow> m | Some i \<Rightarrow> i)"

subsection \<open>Putting the lines together again\<close>

text \<open>
  A break is soft when the line before it is shorter than the budget (the line ends
  before a blank found within the budget) and hard when the line has exactly budget
  characters. \<open>rejoin\<close> concatenates the lines with a single blank put back at each soft
  break and nothing at a hard break. \<open>weave\<close> concatenates the lines with a given
  string after each line but the last; \<open>break_ok\<close> says of a line that is not the last
  and of the string \<open>g\<close> removed after it that \<open>g\<close> is whitespace only, and that either
  the break is soft and \<open>g\<close> begins with the blank, or the break is hard and the line has
  no blank.
\<close>

definition break_blank :: "nat \<Rightarrow> string \<Rightarrow> string" where
  "break_blank m l = (if length l < m then '' '' else [])"

fun rejoin :: "nat \<Rightarrow> string list \<Rightarrow> string" where
  "rejoin m [] = []"
| "rejoin m [l] = l"
| "rejoin m (l # l' # ls) = l @ break_blank m l @ rejoin m (l' # ls)"

fun weave :: "string list \<Rightarrow> string list \<Rightarrow> string" where
  "weave [] gaps = []"
| "weave [l] gaps = l"
| "weave (l # l' # ls) [] = l @ weave (l' # ls) []"
| "weave (l # l' # ls) (g # gaps) = l @ g @ weave (l' # ls) gaps"

definition break_ok :: "nat \<Rightarrow> string \<Rightarrow> string \<Rightarrow> bool" where
  "break_ok m l g =
     (list_all isspace g
      \<and> ((length l < m \<and> take 1 g = '' '') \<or> (length l = m \<and> CHR '' '' \<notin> set l)))"

section \<open>Console, clock and network events\<close>

text \<open>
  What a run does to the outside world is recorded as the list of events it produces, in
  order: \<^verbatim>\<open>time.sleep(n)\<close>, the two remote calls with their argument, the messages
  printed by \<^verbatim>\<open>get_paper\<close>, \<^verbatim>\<open>lookup_pubmed\<close>, \<^verbatim>\<open>get_pptx\<close> and \<^verbatim>\<open>main\<close>
  (the messages of the two input functions are left out), the test
  \<^verbatim>\<open>os.path.exists\<close> and \<^verbatim>\<open>presentation.save\<close>.
\<close>

datatype message =
    Retrying500
  | Retrying429
  | HTTPErrorEncountered
  | FailedToRetrieve string
  | SearchingJournal string
  | AlreadyExists string
  | Opener
  | ReadingConfigFile
  | LookingUpPapers
  | GettingPaperInfo
  | Closer0
  | Closer1
  | PreparePptx

datatype event =
    Sleep nat
  | Esearch string
  | Efetch string
  | Print message
  | PathExists string
  | Save string

section \<open>The remote service\<close>

text \<open>
  The service is a parameter of the model. \<open>esearch srv q\<close> is the outcome of
  \<^verbatim>\<open>Entrez.esearch\<close> followed by \<^verbatim>\<open>Entrez.read\<close> for the query \<open>q\<close>;
  \<open>efetch srv n pmid\<close> is the outcome of \<^verbatim>\<open>Entrez.efetch\<close> followed by
  \<^verbatim>\<open>Entrez.read\<close> on the \<open>n\<close>-th fetch call of the run (counted from 0), so that the
  same identifier can be answered differently on a later attempt.
\<close>

datatype search_response =
    IdList "string list"
  | EsearchRaises exn
  | ReadRaises

datatype fetch_response =
    Returns paper
  | Raises exn

record service =
  esearch :: "string \<Rightarrow> search_response"
  efetch :: "nat \<Rightarrow> string \<Rightarrow> fetch_response"

text \<open>
  \<^verbatim>\<open>get_pmids\<close>: a failure of \<^verbatim>\<open>Entrez.read\<close> is re-raised as \<^verbatim>\<open>ValueError\<close>, which
  the enclosing \<^verbatim>\<open>except HTTPError\<close> does not catch. On an \<^verbatim>\<open>HTTPError\<close> the handler
  evaluates \<^verbatim>\<open>HTTPError(message)\<close>; the constructor of \<^verbatim>\<open>urllib.error.HTTPError\<close>
  takes five arguments, so this raises \<^verbatim>\<open>TypeError\<close>.
\<close>

definition get_pmids :: "service \<Rightarrow> string \<Rightarrow> exn + string list" where
  "get_pmids srv combined_query =
     (case esearch srv combined_query of
        IdList pmids \<Rightarrow> Inr pmids
      | ReadRaises \<Rightarrow> Inl ValueError
      | EsearchRaises (HTTPError r) \<Rightarrow> Inl TypeError
      | EsearchRaises e \<Rightarrow> Inl e)"

text \<open>
  \<^verbatim>\<open>get_paper\<close>, on the \<open>n\<close>-th fetch call. In the handler, a status of 500 or 429
  prints, sleeps 10 seconds and falls out of the \<^verbatim>\<open>try\<close> statement to
  \<^verbatim>\<open>return paper\<close>; \<^verbatim>\<open>paper\<close> was never assigned, which raises
  \<^verbatim>\<open>UnboundLocalError\<close>. Any other status re-raises the \<^verbatim>\<open>HTTPError\<close>. When the
  exception object has no \<^verbatim>\<open>response\<close> attribute the first test raises
  \<^verbatim>\<open>AttributeError\<close>.
\<close>

definition get_paper :: "service \<Rightarrow> string \<Rightarrow> nat \<Rightarrow> event list \<times> (exn + paper)" where
  "get_paper srv pmid n =
     (case efetch srv n pmid of
        Returns paper \<Rightarrow> ([Efetch pmid], Inr paper)
      | Raises (HTTPError None) \<Rightarrow> ([Efetch pmid], Inl AttributeError)
      | Raises (HTTPError (Some status_code)) \<Rightarrow>
          if status_code = 500 then
            ([Efetch pmid, Print Retrying500, Sleep 10], Inl UnboundLocalError)
          else if status_code = 429 then
            ([Efetch pmid, Print Retrying429, Sleep 10], Inl UnboundLocalError)
          else ([Efetch pmid], Inl (HTTPError (Some status_code)))
      | Raises e \<Rightarrow> ([Efetch pmid], Inl e))"

section \<open>Retrieval\<close>

text \<open>
  The state of \<^verbatim>\<open>lookup_pubmed\<close>: the number of fetch calls made so far and the list
  \<^verbatim>\<open>papers\<close>. Every loop returns the events it produced, the state, and the exception
  that ended it, if any.
\<close>

record retrieval =
  calls :: nat
  papers :: "paper list"

text \<open>
  \<^verbatim>\<open>
  for _ in range(attempt_number):
      try:
          paper = get_paper(pmid)
          papers.append(paper)
      except HTTPError as e:
          print(...); print(...)
          continue
  \<close>
  Only \<^verbatim>\<open>HTTPError\<close> is caught; the loop has no \<^verbatim>\<open>break\<close>.
\<close>

fun attempts ::
  "service \<Rightarrow> string \<Rightarrow> nat \<Rightarrow> retrieval \<Rightarrow> event list \<times> retrieval \<times> exn option" where
  "attempts srv pmid 0 st = ([], st, None)"
| "attempts srv pmid (Suc k) st =
     (case get_paper srv pmid (calls st) of
        (evs, Inr paper) \<Rightarrow>
          (case attempts srv pmid k (st\<lparr>calls := Suc (calls st), papers := papers st @ [paper]\<rparr>) of
             (evs', r) \<Rightarrow> (evs @ evs', r))
      | (evs, Inl (HTTPError code)) \<Rightarrow>
          (case attempts srv pmid k (st\<lparr>calls := Suc (calls st)\<rparr>) of
             (evs', r) \<Rightarrow>
               (evs @ [Print HTTPErrorEncountered, Print (FailedToRetrieve pmid)] @ evs', r))
      | (evs, Inl e) \<Rightarrow> (evs, st\<lparr>calls := Suc (calls st)\<rparr>, Some e))"

text \<open>
  \<^verbatim>\<open>
  for pmid in pmids:
      time.sleep(1)
      for _ in range(attempt_number): ...
  \<close>
\<close>

fun fetch_pmids ::
  "service \<Rightarrow> nat \<Rightarrow> string list \<Rightarrow> retrieval \<Rightarrow> event list \<times> retrieval \<times> exn option" where
  "fetch_pmids srv attempt_number [] st = ([], st, None)"
| "fetch_pmids srv attempt_number (pmid # pmids) st =
     (case attempts srv pmid attempt_number st of
        (evs, st', Some e) \<Rightarrow> (Sleep 1 # evs, st', Some e)
      | (evs, st', None) \<Rightarrow>
          (case fetch_pmids srv attempt_number pmids st' of
             (evs', r) \<Rightarrow> (Sleep 1 # evs @ evs', r)))"

text \<open>
  The pacing rule as the specification words it: every fetch call in the trace has a
  one-second pause as the event just before it.
\<close>

fun paused_before_every_fetch :: "event option \<Rightarrow> event list \<Rightarrow> bool" where
  "paused_before_every_fetch previous [] = True"
| "paused_before_every_fetch previous (e # evs) =
     ((case e of Efetch pmid \<Rightarrow> previous = Some (Sleep 1) | _ \<Rightarrow> True)
      \<and> paused_before_every_fetch (Some e) evs)"

section \<open>Configuration and date range\<close>

subsection \<open>String functions of the Python library\<close>

text \<open>\<^verbatim>\<open>s.split(sep)\<close> for a non-empty separator.\<close>

function split :: "string \<Rightarrow> string \<Rightarrow> string list" where
  "split sep [] = [[]]"
| "split sep (c # cs) =
     (if sep \<noteq> [] \<and> prefix sep (c # cs) then [] # split sep (drop (length sep) (c # cs))
      else (case split sep cs of
              [] \<Rightarrow> [[c]]
            | w # ws \<Rightarrow> (c # w) # ws))"
  by pat_completeness auto
termination
  by (relation "measure (\<lambda>(sep, s). length s)") auto

text \<open>\<^verbatim>\<open>s.strip()\<close> and \<^verbatim>\<open>s.count(c)\<close> for a single character.\<close>

definition strip :: "string \<Rightarrow> string" where
  "strip s = rev (lstrip (rev (lstrip s)))"

definition count :: "string \<Rightarrow> char \<Rightarrow> nat" where
  "count s c = length (filter (\<lambda>x. x = c) s)"

text \<open>
  \<^verbatim>\<open>s.splitlines()\<close>: lines end at a line boundary (carriage return followed by line
  feed counts once); there is no empty last line.
\<close>

definition is_line_boundary :: "char \<Rightarrow> bool" where
  "is_line_boundary c =
     (c \<in> {CHR 0x0A, CHR 0x0B, CHR 0x0C, CHR 0x0D, CHR 0x1C, CHR 0x1D, CHR 0x1E, CHR 0x85})"

fun splitlines_from :: "string \<Rightarrow> string \<Rightarrow> string list" where
  "splitlines_from line [] = (if line = [] then [] else [line])"
| "splitlines_from line [c] =
     (if is_line_boundary c then [line] else [line @ [c]])"
| "splitlines_from line (c # d # cs) =
     (if c = CHR 0x0D \<and> d = CHR 0x0A then line # splitlines_from [] cs
      else if is_line_boundary c then line # splitlines_from [] (d # cs)
      else splitlines_from (line @ [c]) (d # cs))"

definition splitlines :: "string \<Rightarrow> string list" where
  "splitlines s = splitlines_from [] s"

text \<open>\<^verbatim>\<open>s.lower()\<close>, on the letters A to Z.\<close>

definition lower :: "string \<Rightarrow> string" where
  "lower s =
     map (\<lambda>c. case map_of (zip ''ABCDEFGHIJKLMNOPQRSTUVWXYZ'' ''abcdefghijklmnopqrstuvwxyz'') c of
                 Some l \<Rightarrow> l
               | None \<Rightarrow> c) s"

text \<open>Decimal numerals: \<^verbatim>\<open>str(n)\<close>, \<^verbatim>\<open>int(s)\<close> and zero padding to a width.\<close>

definition digit :: "nat \<Rightarrow> char" where
  "digit n = ''0123456789'' ! (n mod 10)"

function str_nat :: "nat \<Rightarrow> string" where
  "str_nat n = (if n < 10 then [digit n] else str_nat (n div 10) @ [digit n])"
  by pat_completeness auto
termination
  by (relation "measure id") auto

declare str_nat.simps [simp del]

definition zero_pad :: "nat \<Rightarrow> nat \<Rightarrow> string" where
  "zero_pad width n = replicate (width - length (str_nat n)) CHR ''0'' @ str_nat n"

definition is_digit :: "char \<Rightarrow> bool" where
  "is_digit c = (c \<in> set ''0123456789'')"

definition digit_value :: "char \<Rightarrow> nat" where
  "digit_value c = (case map_of (zip ''0123456789'' [0, 1, 2, 3, 4, 5, 6, 7, 8, 9]) c of
                      Some v \<Rightarrow> v
                    | None \<Rightarrow> 0)"

definition int_of :: "string \<Rightarrow> nat" where
  "int_of s = foldl (\<lambda>n c. 10 * n + digit_value c) 0 s"

subsection \<open>The configuration file\<close>

record config =
  email :: string
  journals :: "string list"
  topics :: "string list"

text \<open>
  \<^verbatim>\<open>read_config_file\<close> on the content of \<^verbatim>\<open>config.txt\<close>, \<open>None\<close> when the file does
  not exist; the function then falls off its end and returns \<^verbatim>\<open>None\<close>.
\<close>

definition read_config_file :: "string option \<Rightarrow> exn + config option" where
  "read_config_file file =
     (case file of
        None \<Rightarrow> Inr None
      | Some lines \<Rightarrow>
          if length lines = 0 then Inl ValueError
          else (case split [CHR 0x0A, CHR 0x0A] lines of
                  [email_par, journals_par, topic_par] \<Rightarrow>
                    if count email_par CHR ''@'' \<noteq> 1 then Inl ValueError
                    else Inr (Some \<lparr>email = strip email_par,
                                    journals = splitlines journals_par,
                                    topics = splitlines topic_par\<rparr>)
                | _ \<Rightarrow> Inl ValueError))"

subsection \<open>Dates\<close>

text \<open>
  A date of the range is either a string or a \<^verbatim>\<open>datetime\<close> object at midnight.
  \<open>str_date\<close> is what an f-string makes of it: the string itself, or
  \<^verbatim>\<open>YYYY-MM-DD 00:00:00\<close> for a \<^verbatim>\<open>datetime\<close>.
\<close>

datatype date_value = DateStr string | DateTime nat nat nat

definition str_date :: "date_value \<Rightarrow> string" where
  "str_date d =
     (case d of
        DateStr s \<Rightarrow> s
      | DateTime y m dd \<Rightarrow>
          zero_pad 4 y @ ''-'' @ zero_pad 2 m @ ''-'' @ zero_pad 2 dd @ '' 00:00:00'')"

text \<open>\<^verbatim>\<open>date.strftime("%Y/%m/%d")\<close>\<close>

definition strftime :: "nat \<times> nat \<times> nat \<Rightarrow> string" where
  "strftime d = (case d of (y, m, dd) \<Rightarrow> zero_pad 4 y @ ''/'' @ zero_pad 2 m @ ''/'' @ zero_pad 2 dd)"

text \<open>
  \<^verbatim>\<open>datetime.strptime(s, "%Y/%m/%d")\<close>: the year is four digits, the month one or two
  digits with a value from 1 to 12, the day one or two digits with a value from 1 to 31
  or a blank and a digit from 1 to 9; nothing may follow; the date must exist.
\<close>

definition leap :: "nat \<Rightarrow> bool" where
  "leap y = (y mod 4 = 0 \<and> (y mod 100 \<noteq> 0 \<or> y mod 400 = 0))"

definition days_in_month :: "nat \<Rightarrow> nat \<Rightarrow> nat" where
  "days_in_month y m =
     (if m = 2 then (if leap y then 29 else 28)
      else if m \<in> {4, 6, 9, 11} then 30 else 31)"

definition year_field :: "string \<Rightarrow> bool" where
  "year_field s = (length s = 4 \<and> list_all is_digit s)"

definition month_field :: "string \<Rightarrow> bool" where
  "month_field s =
     (list_all is_digit s \<and> (length s = 1 \<or> length s = 2) \<and> 1 \<le> int_of s \<and> int_of s \<le> 12)"

definition day_field :: "string \<Rightarrow> bool" where
  "day_field s =
     ((list_all is_digit s \<and> (length s = 1 \<or> length s = 2) \<and> 1 \<le> int_of s \<and> int_of s \<le> 31)
      \<or> (length s = 2 \<and> hd s = CHR '' '' \<and> is_digit (last s) \<and> last s \<noteq> CHR ''0''))"

definition strptime :: "string \<Rightarrow> exn + nat \<times> nat \<times> nat" where
  "strptime s =
     (case split ''/'' s of
        [ys, ms, ds] \<Rightarrow>
          if year_field ys \<and> month_field ms \<and> day_field ds then
            (let y = int_of ys; m = int_of ms; d = int_of (filter is_digit ds)
             in if 1 \<le> y \<and> d \<le> days_in_month y m then Inr (y, m, d) else Inl ValueError)
          else Inl ValueError
      | _ \<Rightarrow> Inl ValueError)"

definition validate_date :: "string \<Rightarrow> exn + unit" where
  "validate_date date = (case strptime date of Inl e \<Rightarrow> Inl ValueError | Inr d \<Rightarrow> Inr ())"

text \<open>
  \<^verbatim>\<open>ask_user_date\<close>. \<open>week_ago\<close> is the date one week before the clock's
  \<^verbatim>\<open>datetime.now()\<close>; the three strings are the answers typed at the prompts (the last
  two are read only when the first is not yes). In default mode both dates are strings;
  otherwise both are converted to \<^verbatim>\<open>datetime\<close> objects before they are returned.
\<close>

definition end_date_default :: string where
  "end_date_default = ''3000/01/01''"

definition ask_user_date ::
  "nat \<times> nat \<times> nat \<Rightarrow> string \<Rightarrow> string \<Rightarrow> string \<Rightarrow> exn + date_value \<times> date_value" where
  "ask_user_date week_ago running_mode start_input end_input =
     (if lower running_mode \<in> {''y'', ''yes'', ''''} then
        Inr (DateStr (strftime week_ago), DateStr end_date_default)
      else
        (case validate_date start_input of
           Inl e \<Rightarrow> Inl e
         | Inr u \<Rightarrow>
             (case (if end_input = '''' then Inr end_date_default
                    else (case validate_date end_input of
                            Inl e \<Rightarrow> Inl e
                          | Inr u \<Rightarrow> Inr end_input)) of
                Inl e \<Rightarrow> Inl e
              | Inr end_date \<Rightarrow>
                  (case (strptime start_input, strptime end_date) of
                     (Inr (y, m, d), Inr (y', m', d')) \<Rightarrow> Inr (DateTime y m d, DateTime y' m' d')
                   | _ \<Rightarrow> Inl ValueError))))"

section \<open>Looking up PubMed\<close>

text \<open>
  \<^verbatim>\<open>
  combined_query = f'{keyword_query} AND ("{start_date}"[Date - Entry] : "{end_date}"[Date - Entry]) AND "{journal_of_interest}"[Journal]'
  \<close>
  \<open>CHR 0x22\<close> is the double quote.
\<close>

definition combined_query :: "string \<Rightarrow> date_value \<Rightarrow> date_value \<Rightarrow> string \<Rightarrow> string" where
  "combined_query keyword_query start_date end_date journal_of_interest =
     keyword_query @ '' AND ('' @ [CHR 0x22] @ str_date start_date @ [CHR 0x22]
     @ ''[Date - Entry] : '' @ [CHR 0x22] @ str_date end_date @ [CHR 0x22]
     @ ''[Date - Entry]) AND '' @ [CHR 0x22] @ journal_of_interest @ [CHR 0x22] @ ''[Journal]''"

text \<open>The loop over the keywords of one journal, and the loop over the journals.\<close>

fun keywords_loop ::
  "service \<Rightarrow> nat \<Rightarrow> date_value \<times> date_value \<Rightarrow> string \<Rightarrow> string list \<Rightarrow> retrieval
   \<Rightarrow> event list \<times> retrieval \<times> exn option" where
  "keywords_loop srv attempt_number dates journal_of_interest [] st = ([], st, None)"
| "keywords_loop srv attempt_number dates journal_of_interest (keyword_query # keywords) st =
     (let q = combined_query keyword_query (fst dates) (snd dates) journal_of_interest
      in case get_pmids srv q of
           Inl e \<Rightarrow> ([Esearch q], st, Some e)
         | Inr pmids \<Rightarrow>
             (case fetch_pmids srv attempt_number pmids st of
                (evs, st', Some e) \<Rightarrow> (Esearch q # evs, st', Some e)
              | (evs, st', None) \<Rightarrow>
                  (case keywords_loop srv attempt_number dates journal_of_interest keywords st' of
                     (evs', r) \<Rightarrow> (Esearch q # evs @ evs', r))))"

fun journals_loop ::
  "service \<Rightarrow> nat \<Rightarrow> date_value \<times> date_value \<Rightarrow> string list \<Rightarrow> string list \<Rightarrow> retrieval
   \<Rightarrow> event list \<times> retrieval \<times> exn option" where
  "journals_loop srv attempt_number dates [] keywords st = ([], st, None)"
| "journals_loop srv attempt_number dates (journal_of_interest # journal_list) keywords st =
     (case keywords_loop srv attempt_number dates journal_of_interest keywords st of
        (evs, st', Some e) \<Rightarrow> (Print (SearchingJournal journal_of_interest) # evs, st', Some e)
      | (evs, st', None) \<Rightarrow>
          (case journals_loop srv attempt_number dates journal_list keywords st' of
             (evs', r) \<Rightarrow> (Print (SearchingJournal journal_of_interest) # evs @ evs', r)))"

text \<open>
  \<^verbatim>\<open>lookup_pubmed\<close>; \<^verbatim>\<open>attempt_number\<close> defaults to 2. Without a configuration
  (\<^verbatim>\<open>None\<close>) the first subscript raises \<^verbatim>\<open>TypeError\<close>. The result is the list
  \<^verbatim>\<open>papers\<close>, or the exception that ended the function.
\<close>

definition default_attempt_number :: nat where
  "default_attempt_number = 2"

definition lookup_pubmed ::
  "service \<Rightarrow> config option \<Rightarrow> date_value \<times> date_value \<Rightarrow> nat
   \<Rightarrow> event list \<times> (exn + paper list)" where
  "lookup_pubmed srv config_file_dict start_end_date attempt_number =
     (case config_file_dict of
        None \<Rightarrow> ([], Inl TypeError)
      | Some cfg \<Rightarrow>
          (case journals_loop srv attempt_number start_end_date (journals cfg) (topics cfg)
                  \<lparr>calls = 0, papers = []\<rparr> of
             (evs, st, Some e) \<Rightarrow> (evs, Inl e)
           | (evs, st, None) \<Rightarrow> (evs, Inr (papers st))))"

text \<open>The queries sent to the search call during a run, in order.\<close>

fun search_of :: "event \<Rightarrow> string list" where
  "search_of (Esearch q) = [q]"
| "search_of e = []"

definition searches :: "event list \<Rightarrow> string list" where
  "searches evs = concat (map search_of evs)"

section \<open>Extraction of the paper information\<close>

text \<open>
  The outcome of the loop body of \<^verbatim>\<open>get_paper_info\<close> for one article: the finished
  component is appended, or a \<^verbatim>\<open>break\<close> leaves the loop over the articles of the
  current paper, or an exception that no handler catches is raised.
\<close>

datatype extraction = Emit component | Break | Raise exn

text \<open>
  The list comprehension over the authors raises \<^verbatim>\<open>KeyError\<close> when the author list or
  one \<^verbatim>\<open>LastName\<close> is missing; the handler stores the placeholder.
\<close>

definition authors_of :: "author list option \<Rightarrow> string list or_str" where
  "authors_of author_list =
     (case author_list of
        None \<Rightarrow> Str ''No authors available''
      | Some authors \<Rightarrow>
          (case those (map LastName authors) of
             None \<Rightarrow> Str ''No authors available''
           | Some names \<Rightarrow> Data names))"

text \<open>
  The affiliations of the authors that have an \<^verbatim>\<open>AffiliationInfo\<close> entry; an entry
  without the key \<^verbatim>\<open>Affiliation\<close> raises \<^verbatim>\<open>KeyError\<close>, outside any handler.
\<close>

fun affiliations_of :: "author list \<Rightarrow> exn + string list" where
  "affiliations_of [] = Inr []"
| "affiliations_of (a # authors) =
     (case AffiliationInfo a of
        None \<Rightarrow> affiliations_of authors
      | Some infos \<Rightarrow>
          (case those infos of
             None \<Rightarrow> Inl KeyError
           | Some affiliations \<Rightarrow>
               (case affiliations_of authors of
                  Inl e \<Rightarrow> Inl e
                | Inr rest \<Rightarrow> Inr (affiliations @ rest))))"

definition extract_article :: "article_body \<Rightarrow> extraction" where
  "extract_article art =
     (case ArticleTitle art of
        None \<Rightarrow> Break
      | Some title \<Rightarrow>
          (case AbstractText art of
             None \<Rightarrow> Break
           | Some None \<Rightarrow> Break
           | Some (Some []) \<Rightarrow> Raise IndexError
           | Some (Some (abstract # rest)) \<Rightarrow>
               (case (case AuthorList art of
                        None \<Rightarrow> Inr None
                      | Some authors \<Rightarrow>
                          (case affiliations_of authors of
                             Inl e \<Rightarrow> Inl e
                           | Inr affiliations \<Rightarrow> Inr (Some affiliations))) of
                  Inl e \<Rightarrow> Raise e
                | Inr institution \<Rightarrow>
                    Emit \<lparr>Title = title,
                          Abstract = Some abstract,
                          Journal = (case JournalTitle art of Some (Some t) \<Rightarrow> Some t | _ \<Rightarrow> None),
                          Date = Some (case ArticleDate art of
                                         Some dates \<Rightarrow> Data dates
                                       | None \<Rightarrow> Str ''No date available''),
                          Link = Some (case ELocationID art of
                                         Some ids \<Rightarrow> Data ids
                                       | None \<Rightarrow> Str ''No link available''),
                          Authors = Some (authors_of (AuthorList art)),
                          Institution = institution\<rparr>)))"

text \<open>
  \<^verbatim>\<open>
  for paper in papers:
      for article in paper["PubmedArticle"]:
          if "MedlineCitation" in article and "Article" in article["MedlineCitation"]:
              ...
              components.append(component)
  \<close>
\<close>

fun articles_loop :: "pubmed_article list \<Rightarrow> component list \<Rightarrow> exn + component list" where
  "articles_loop [] components = Inr components"
| "articles_loop (article # articles) components =
     (case MedlineCitation article of
        None \<Rightarrow> articles_loop articles components
      | Some citation \<Rightarrow>
          (case Article citation of
             None \<Rightarrow> articles_loop articles components
           | Some art \<Rightarrow>
               (case extract_article art of
                  Break \<Rightarrow> Inr components
                | Raise e \<Rightarrow> Inl e
                | Emit component \<Rightarrow> articles_loop articles (components @ [component]))))"

fun papers_loop :: "paper list \<Rightarrow> component list \<Rightarrow> exn + component list" where
  "papers_loop [] components = Inr components"
| "papers_loop (paper # paper_list) components =
     (case articles_loop (PubmedArticle paper) components of
        Inl e \<Rightarrow> Inl e
      | Inr components' \<Rightarrow> papers_loop paper_list components')"

definition get_paper_info :: "paper list \<Rightarrow> exn + component list" where
  "get_paper_info paper_list =
     (case papers_loop paper_list [] of
        Inl e \<Rightarrow> Inl e
      | Inr components \<Rightarrow> Inr (remove_duplicates components))"

subsection \<open>What the loops keep\<close>

text \<open>
  The articles of a paper that reach the loop body, and the test for an article without
  a title or without an abstract text (the two \<^verbatim>\<open>break\<close> branches).
\<close>

definition bodies :: "paper \<Rightarrow> article_body list" where
  "bodies paper =
     List.map_filter (\<lambda>article. Option.bind (MedlineCitation article) Article)
       (PubmedArticle paper)"

definition lacks_title_or_abstract :: "article_body \<Rightarrow> bool" where
  "lacks_title_or_abstract art =
     (ArticleTitle art = None \<or> AbstractText art = None \<or> AbstractText art = Some None)"

text \<open>
  The records of one paper as the loops leave them: those of the articles that come
  before the first article without title or abstract.
\<close>

definition emitted :: "article_body \<Rightarrow> component list" where
  "emitted art = (case extract_article art of Emit component \<Rightarrow> [component] | _ \<Rightarrow> [])"

definition records_before_break :: "paper \<Rightarrow> component list" where
  "records_before_break paper =
     concat (map emitted (takeWhile (\<lambda>art. \<not> lacks_title_or_abstract art) (bodies paper)))"

text \<open>
  An article that has at most a title and a one-paragraph abstract, and the component
  extracted from such an article when it has both.
\<close>

definition article_with :: "string option \<Rightarrow> string option \<Rightarrow> pubmed_article" where
  "article_with title abstract =
     \<lparr>MedlineCitation = Some \<lparr>Article = Some
        \<lparr>ArticleTitle = title,
         AbstractText = (case abstract of None \<Rightarrow> None | Some a \<Rightarrow> Some (Some [a])),
         JournalTitle = None, ArticleDate = None, ELocationID = None, AuthorList = None\<rparr>\<rparr>\<rparr>"

definition plain_component :: "string \<Rightarrow> string \<Rightarrow> component" where
  "plain_component title abstract =
     \<lparr>Title = title, Abstract = Some abstract, Journal = None,
      Date = Some (Str ''No date available''), Link = Some (Str ''No link available''),
      Authors = Some (Str ''No authors available''), Institution = None\<rparr>"

section \<open>The presentation\<close>

text \<open>
  A presentation is the list of its slides. The model keeps the text content: the title
  of a slide and the texts of the runs and paragraphs added to its text box, in order, or
  the rows of its table. Positions, font sizes, colours and the grouping of runs into
  paragraphs are not modelled.
\<close>

datatype slide =
    TextSlide string "string list"
  | TableSlide string "(string \<times> string) list"
  | BlankSlide "string list"

definition version :: string where
  "version = ''3.0.0''"

definition update_date_numbers :: nat where
  "update_date_numbers = 20240710"

text \<open>
  The runs written for a text and a budget: every chunk with a newline appended, then
  the remainder. The budgets used are positive, for which the loop returns
  (\<open>wrap_loop_total\<close> below).
\<close>

definition run_texts :: "nat \<Rightarrow> string \<Rightarrow> string list" where
  "run_texts max_characters_per_line text =
     (case wrap_field max_characters_per_line text of
        None \<Rightarrow> []
      | Some chunks \<Rightarrow> map (\<lambda>chunk. chunk @ [CHR 0x0A]) (butlast chunks) @ [last chunks])"

text \<open>
  Counting in a dictionary: \<^verbatim>\<open>d[k] = d.get(k, 0) + 1\<close>. The dictionary is a list of
  pairs in insertion order.
\<close>

fun increment :: "(string \<times> nat) list \<Rightarrow> string \<Rightarrow> (string \<times> nat) list" where
  "increment [] k = [(k, 1)]"
| "increment ((k', n) # d) k = (if k' = k then (k', n + 1) # d else (k', n) # increment d k)"

definition journal_data :: "component list \<Rightarrow> (string \<times> nat) list" where
  "journal_data components =
     foldl (\<lambda>d component. case Journal component of None \<Rightarrow> d | Some journal_name \<Rightarrow> increment d journal_name)
       [] components"

text \<open>
  \<^verbatim>\<open>sorted(institution_count, key=institution_count.get, reverse=True)[:2]\<close>: the sort
  is stable, so among equal counts the key inserted first comes first.
\<close>

fun insert_descending :: "string \<times> nat \<Rightarrow> (string \<times> nat) list \<Rightarrow> (string \<times> nat) list" where
  "insert_descending x [] = [x]"
| "insert_descending x (y # ys) =
     (if snd y < snd x then x # y # ys else y # insert_descending x ys)"

definition top_two_institutions :: "(string \<times> nat) list \<Rightarrow> (string \<times> nat) list" where
  "top_two_institutions institution_count =
     take 2 (foldl (\<lambda>sorted x. insert_descending x sorted) [] institution_count)"

definition institution_text :: "(string \<times> nat) list \<Rightarrow> string" where
  "institution_text institution_count =
     ''Institutions: '' @
     join ''; '' (map (\<lambda>(institution, n). institution @ '' '' @ str_nat n)
                   (top_two_institutions institution_count))"

subsection \<open>The slide of one component\<close>

text \<open>
  \<^verbatim>\<open>component["Date"][0]\<close> and the test for the keys \<^verbatim>\<open>Year\<close>, \<^verbatim>\<open>Month\<close> and
  \<^verbatim>\<open>Day\<close>. On the placeholder string the subscript gives its first character, in which
  none of the three words occurs.
\<close>

definition date_line :: "date_entry list or_str option \<Rightarrow> exn + string" where
  "date_line d =
     (case d of
        None \<Rightarrow> Inr (''Publication Date: not available'' @ [CHR 0x0A])
      | Some (Data []) \<Rightarrow> Inl IndexError
      | Some (Data (date # rest)) \<Rightarrow>
          (case (Year date, Month date, Day date) of
             (Some y, Some m, Some dd) \<Rightarrow>
               Inr (''Publication Date: '' @ y @ ''/'' @ m @ ''/'' @ dd @ [CHR 0x0A])
           | _ \<Rightarrow> Inr [])
      | Some (Str []) \<Rightarrow> Inl IndexError
      | Some (Str (c # rest)) \<Rightarrow> Inr [])"

definition doi_line :: "string list or_str option \<Rightarrow> exn + string" where
  "doi_line l =
     (case l of
        None \<Rightarrow> Inl KeyError
      | Some (Data []) \<Rightarrow> Inl IndexError
      | Some (Data (link # rest)) \<Rightarrow> Inr (''DOI: '' @ link @ [CHR 0x0A])
      | Some (Str []) \<Rightarrow> Inl IndexError
      | Some (Str (c # rest)) \<Rightarrow> Inr (''DOI: '' @ [c] @ [CHR 0x0A]))"

definition authors_runs :: "string list or_str option \<Rightarrow> string list" where
  "authors_runs a =
     (case a of
        None \<Rightarrow> [''Authors: Not available'']
      | Some (Data names) \<Rightarrow> [] # run_texts 170 (''Authors: '' @ join '', '' names)
      | Some (Str s) \<Rightarrow> [] # run_texts 170 (''Authors: '' @ join '', '' (map (\<lambda>c. [c]) s)))"

text \<open>
  The institutions: \<^verbatim>\<open>institution_count\<close> is assigned only under
  \<^verbatim>\<open>if "Institution" in component\<close> and read after it. The variable belongs to the
  function, not to the iteration, so its value is carried from one component to the next;
  \<open>None\<close> is the unbound variable, and reading it raises \<^verbatim>\<open>UnboundLocalError\<close>.
\<close>

definition count_institutions ::
  "string list option \<Rightarrow> (string \<times> nat) list option \<Rightarrow> (string \<times> nat) list option" where
  "count_institutions institution carried =
     (case institution of
        None \<Rightarrow> carried
      | Some institutions \<Rightarrow> Some (foldl increment [] institutions))"

definition institution_runs :: "(string \<times> nat) list option \<Rightarrow> exn + string list" where
  "institution_runs institution_count =
     (case institution_count of
        None \<Rightarrow> Inl UnboundLocalError
      | Some counted \<Rightarrow>
          if length (institution_text counted) > 170
          then Inr ([] # run_texts 170 (institution_text counted))
          else Inr [institution_text counted])"

definition component_slide ::
  "component \<Rightarrow> (string \<times> nat) list option \<Rightarrow> exn + slide \<times> (string \<times> nat) list option" where
  "component_slide component carried =
     (let title_runs = [] # run_texts 75 (strip_tags (Title component));
          abstract_runs = (case Abstract component of
                             Some abstract \<Rightarrow> [] # run_texts 115 (strip_tags abstract)
                           | None \<Rightarrow> [''Abstract: Not available'']);
          journal_line = (case Journal component of
                            Some journal \<Rightarrow> ''Published in: '' @ journal @ [CHR 0x0A]
                          | None \<Rightarrow> ''Journal: Not available'' @ [CHR 0x0A])
      in case date_line (Date component) of
           Inl e \<Rightarrow> Inl e
         | Inr date_text \<Rightarrow>
             (case doi_line (Link component) of
                Inl e \<Rightarrow> Inl e
              | Inr doi \<Rightarrow>
                  (let institution_count = count_institutions (Institution component) carried
                   in case institution_runs institution_count of
                        Inl e \<Rightarrow> Inl e
                      | Inr institutions \<Rightarrow>
                          Inr (BlankSlide (title_runs @ abstract_runs @ [journal_line @ date_text]
                                           @ [doi] @ authors_runs (Authors component)
                                           @ institutions),
                               institution_count))))"

fun component_slides ::
  "component list \<Rightarrow> (string \<times> nat) list option \<Rightarrow> exn + slide list" where
  "component_slides [] carried = Inr []"
| "component_slides (component # components) carried =
     (case component_slide component carried of
        Inl e \<Rightarrow> Inl e
      | Inr (s, carried') \<Rightarrow>
          (case component_slides components carried' of
             Inl e \<Rightarrow> Inl e
           | Inr slides \<Rightarrow> Inr (s # slides)))"

subsection \<open>The whole file\<close>

definition intro_slide :: slide where
  "intro_slide =
     TextSlide (''Journal Lookup Tool v'' @ version)
       [''By AP Ledray, updated '' @ str_nat update_date_numbers,
        ''contact: aaronledray@gmail.com'', []]"

text \<open>
  The end date is compared with the string \<^verbatim>\<open>"3000/01/01"\<close>; a \<^verbatim>\<open>datetime\<close> object is
  never equal to it. \<open>today\<close> is the date of \<^verbatim>\<open>datetime.now()\<close>.
\<close>

definition query_slide_1 :: "nat \<times> nat \<times> nat \<Rightarrow> config \<Rightarrow> date_value \<times> date_value \<Rightarrow> slide" where
  "query_slide_1 today cfg start_end_date =
     TextSlide ''Query Information (1):''
       ([''Username: '' @ email cfg, [],
         ''Query start date: '' @ str_date (fst start_end_date) @ [CHR 0x0A]
           @ ''Query end date: ''
           @ (if snd start_end_date = DateStr ''3000/01/01'' then strftime today
              else str_date (snd start_end_date))
           @ [CHR 0x0A],
         [], ''Query journals:''] @ journals cfg)"

definition query_slide_2 :: "config \<Rightarrow> slide" where
  "query_slide_2 cfg =
     TextSlide ''Query Information (2):''
       (''Query keywords:'' # run_texts 100 (join '', '' (topics cfg)))"

definition journals_slide :: "component list \<Rightarrow> slide" where
  "journals_slide components =
     TableSlide ''Journals Found:''
       ((''Journal'', ''Number of Articles'')
        # map (\<lambda>(journal, num_articles). (journal, str_nat num_articles)) (journal_data components))"

text \<open>
  \<^verbatim>\<open>get_pptx\<close>. \<open>path_exists\<close> is the file system as \<^verbatim>\<open>os.path.exists\<close> sees it.
  The result is the events, the presentation written to \<^verbatim>\<open>publications.pptx\<close> if one
  is written, and the exception that ended the function if one did. The test is made on
  \<^verbatim>\<open>pptx_name\<close>; the file is saved under the fixed name.
\<close>

definition get_pptx ::
  "(string \<Rightarrow> bool) \<Rightarrow> nat \<times> nat \<times> nat \<Rightarrow> date_value \<times> date_value \<Rightarrow> config option
   \<Rightarrow> component list \<Rightarrow> string \<Rightarrow> event list \<times> slide list option \<times> exn option" where
  "get_pptx path_exists today start_end_date config_file_dict components pptx_name =
     (if path_exists pptx_name then
        ([PathExists pptx_name, Print (AlreadyExists pptx_name)], None, None)
      else
        (case config_file_dict of
           None \<Rightarrow> ([PathExists pptx_name], None, Some TypeError)
         | Some cfg \<Rightarrow>
             (case component_slides components None of
                Inl e \<Rightarrow> ([PathExists pptx_name], None, Some e)
              | Inr slides \<Rightarrow>
                  ([PathExists pptx_name, Save ''publications.pptx''],
                   Some ([intro_slide, query_slide_1 today cfg start_end_date, query_slide_2 cfg,
                          journals_slide components] @ slides),
                   None))))"

section \<open>The run\<close>

text \<open>
  What a run reads from the outside: the content of \<^verbatim>\<open>config.txt\<close> if the file
  exists, the answers typed at the prompts, the clock, the remote service and the file
  system.
\<close>

record world =
  config_txt :: "string option"
  running_mode :: string
  start_input :: string
  end_input :: string
  clock_week_ago :: "nat \<times> nat \<times> nat"
  clock_today :: "nat \<times> nat \<times> nat"
  remote :: service
  file_exists :: "string \<Rightarrow> bool"

text \<open>
  \<^verbatim>\<open>main\<close>: the events of the run, the presentation written if one is written, and the
  exception that ended the run if one did.
\<close>

definition main :: "world \<Rightarrow> event list \<times> slide list option \<times> exn option" where
  "main w =
     (case read_config_file (config_txt w) of
        Inl e \<Rightarrow> ([Print Opener, Print ReadingConfigFile], None, Some e)
      | Inr config_file_dict \<Rightarrow>
          (case ask_user_date (clock_week_ago w) (running_mode w) (start_input w) (end_input w) of
             Inl e \<Rightarrow> ([Print Opener, Print ReadingConfigFile], None, Some e)
           | Inr start_end_date \<Rightarrow>
               (case lookup_pubmed (remote w) config_file_dict start_end_date default_attempt_number of
                  (evs, Inl e) \<Rightarrow>
                    ([Print Opener, Print ReadingConfigFile, Print LookingUpPapers] @ evs,
                     None, Some e)
                | (evs, Inr paper_list) \<Rightarrow>
                    (case get_paper_info paper_list of
                       Inl e \<Rightarrow>
                         ([Print Opener, Print ReadingConfigFile, Print LookingUpPapers] @ evs
                          @ [Print GettingPaperInfo], None, Some e)
                     | Inr components \<Rightarrow>
                         (case get_pptx (file_exists w) (clock_today w) start_end_date config_file_dict
                                 components ''publications.pptx'' of
                            (evs', saved, r) \<Rightarrow>
                              ([Print Opener, Print ReadingConfigFile, Print LookingUpPapers] @ evs
                               @ [Print GettingPaperInfo,
                                  Print (if length components = 0 then Closer0 else Closer1),
                                  Print PreparePptx]
                               @ evs', saved, r))))))"

subsection \<open>Example runs\<close>

text \<open>
  A world with a well-formed configuration file (one journal, one topic) whose user
  chooses the default mode; the service and the file system are left open. A service
  that finds nothing.
\<close>

definition example_world :: "service \<Rightarrow> (string \<Rightarrow> bool) \<Rightarrow> world" where
  "example_world s ex =
     \<lparr>config_txt = Some ''a@b.c\<newline>\<newline>Nature\<newline>\<newline>crispr'',
      running_mode = ''y'', start_input = [], end_input = [],
      clock_week_ago = (2024, 7, 3), clock_today = (2024, 7, 10), remote = s, file_exists = ex\<rparr>"

definition example_config :: config where
  "example_config = \<lparr>email = ''a@b.c'', journals = [''Nature''], topics = [''crispr'']\<rparr>"

definition example_dates :: "date_value \<times> date_value" where
  "example_dates = (DateStr ''2024/07/03'', DateStr ''3000/01/01'')"

definition no_hits :: service where
  "no_hits = \<lparr>esearch = (\<lambda>q. IdList []), efetch = (\<lambda>n pmid. Raises KeyError)\<rparr>"

text \<open>
  A service that finds one identifier for every query and returns for it a record with
  one complete article.
\<close>

definition one_hit :: service where
  "one_hit =
     \<lparr>esearch = (\<lambda>q. IdList [''1'']),
      efetch = (\<lambda>n pmid. Returns \<lparr>PubmedArticle = [article_with (Some ''T'') (Some ''b'')]\<rparr>)\<rparr>"

section \<open>Properties of deduplication\<close>

lemma dedup_loop_filter:
  "dedup_loop seen xs =
     map (\<lambda>i. xs ! i)
       (filter (\<lambda>i. Title (xs ! i) \<notin> seen \<union> Title ` set (take i xs)) [0..<length xs])"
proof (induction xs arbitrary: seen)
  case Nil
  show ?case by simp
next
  case (Cons x xs)
  let ?P = "\<lambda>s ys i. Title (ys ! i) \<notin> s \<union> Title ` set (take i ys)"
  have shift: "[0..<length (x # xs)] = 0 # map Suc [0..<length xs]"
    by (simp add: upt_conv_Cons map_Suc_upt del: upt_Suc)
  have step: "?P seen (x # xs) (Suc i) = ?P (insert (Title x) seen) xs i" for i
    by auto
  have tail:
    "map (\<lambda>i. (x # xs) ! i) (filter (?P seen (x # xs)) (map Suc [0..<length xs]))
     = dedup_loop (insert (Title x) seen) xs"
    unfolding Cons.IH [of "insert (Title x) seen"] filter_map comp_def step
    by (simp add: comp_def)
  have head: "?P seen (x # xs) 0 = (Title x \<notin> seen)"
    by simp
  show ?case
  proof (cases "Title x \<in> seen")
    case True
    then have same: "insert (Title x) seen = seen" by auto
    have "map (\<lambda>i. (x # xs) ! i) (filter (?P seen (x # xs)) [0..<length (x # xs)])
          = map (\<lambda>i. (x # xs) ! i) (filter (?P seen (x # xs)) (map Suc [0..<length xs]))"
      unfolding shift using True by simp
    also have "\<dots> = dedup_loop seen xs" using tail same by simp
    finally show ?thesis using True by simp
  next
    case False
    have "map (\<lambda>i. (x # xs) ! i) (filter (?P seen (x # xs)) [0..<length (x # xs)])
          = x # map (\<lambda>i. (x # xs) ! i) (filter (?P seen (x # xs)) (map Suc [0..<length xs]))"
      unfolding shift using False by simp
    also have "\<dots> = x # dedup_loop (insert (Title x) seen) xs" using tail by simp
    finally show ?thesis using False by simp
  qed
qed

lemma dedup_loop_titles:
  "Title ` set (dedup_loop seen xs) = Title ` set xs - seen"
  by (induction xs arbitrary: seen) auto

lemma dedup_loop_distinct: "distinct (map Title (dedup_loop seen xs))"
proof (induction xs arbitrary: seen)
  case Nil
  show ?case by simp
next
  case (Cons x xs)
  have "Title x \<notin> Title ` set (dedup_loop (insert (Title x) seen) xs)"
    by (simp add: dedup_loop_titles)
  with Cons.IH show ?case by simp
qed

lemma dedup_loop_subseq: "subseq (dedup_loop seen xs) xs"
  by (induction xs arbitrary: seen) auto

text \<open>
  Claim C9. The deduplicator keeps exactly the first occurrence of each distinct title
  (the element at index \<open>i\<close> is kept precisely when no earlier element has its title),
  keeps the kept elements in their input order, emits every title of the input, and its
  output has no two elements with the same title.
\<close>

theorem remove_duplicates_first_occurrence:
  "remove_duplicates cs =
     map (\<lambda>i. cs ! i)
       (filter (\<lambda>i. Title (cs ! i) \<notin> Title ` set (take i cs)) [0..<length cs])
   \<and> subseq (remove_duplicates cs) cs
   \<and> distinct (map Title (remove_duplicates cs))
   \<and> set (map Title (remove_duplicates cs)) = set (map Title cs)"
proof -
  have a: "remove_duplicates cs =
     map (\<lambda>i. cs ! i)
       (filter (\<lambda>i. Title (cs ! i) \<notin> Title ` set (take i cs)) [0..<length cs])"
    unfolding remove_duplicates_def using dedup_loop_filter [of "{}" cs] by simp
  have b: "subseq (remove_duplicates cs) cs"
    unfolding remove_duplicates_def by (rule dedup_loop_subseq)
  have c: "distinct (map Title (remove_duplicates cs))"
    unfolding remove_duplicates_def by (rule dedup_loop_distinct)
  have d: "set (map Title (remove_duplicates cs)) = set (map Title cs)"
    unfolding remove_duplicates_def using dedup_loop_titles [of "{}" cs] by simp
  from a b c d show ?thesis by blast
qed

section \<open>Properties of the text layout\<close>

lemma rfind_from_None: "rfind_from c xs = None \<longleftrightarrow> c \<notin> set xs"
  by (induction xs) (auto split: option.splits)

lemma rfind_from_Some:
  "rfind_from c xs = Some i \<Longrightarrow> i < length xs \<and> xs ! i = c"
  by (induction xs arbitrary: i) (auto split: option.splits if_splits)

lemma rfind_Some:
  assumes "rfind s c e = Some i"
  shows "i < e" and "i < length s" and "s ! i = c"
proof -
  from assms have *: "i < length (take e s) \<and> take e s ! i = c"
    unfolding rfind_def by (rule rfind_from_Some)
  then show "i < e" "i < length s" by simp_all
  with * show "s ! i = c" by simp
qed

lemma isspace_space: "isspace CHR '' ''"
  by (simp add: isspace_def)

lemma filter_dropWhile_not: "filter (\<lambda>c. \<not> P c) (dropWhile P xs) = filter (\<lambda>c. \<not> P c) xs"
  by (induction xs) auto

lemma length_lstrip_le: "length (lstrip s) \<le> length s"
  unfolding lstrip_def by (rule length_dropWhile_le)

lemma length_lstrip_less: "s \<noteq> [] \<Longrightarrow> isspace (hd s) \<Longrightarrow> length (lstrip s) < length s"
  unfolding lstrip_def by (cases s) (auto simp: le_imp_less_Suc length_dropWhile_le)

lemma wrap_loop_step:
  "wrap_loop m text =
     (if length text > m then
        Option.bind (wrap_loop m (lstrip (drop (split_index m text) text)))
          (\<lambda>chunks. Some (take (split_index m text) text # chunks))
      else Some [text])"
  by (subst wrap_loop.simps) (simp add: split_index_def Let_def)

lemma split_index_le: "split_index m text \<le> m"
  unfolding split_index_def by (auto split: option.splits dest: rfind_Some(1))

lemma rest_shorter:
  assumes "0 < m" "m < length text"
  shows "length (lstrip (drop (split_index m text) text)) < length text"
proof (cases "split_index m text = 0")
  case True
  with assms obtain i where r: "rfind text CHR '' '' m = Some i" and "i = 0"
    unfolding split_index_def by (auto split: option.splits)
  then have "text ! 0 = CHR '' ''" using rfind_Some(3) by blast
  moreover from assms have "text \<noteq> []" by auto
  ultimately have "isspace (hd text)" by (simp add: hd_conv_nth isspace_space)
  with \<open>text \<noteq> []\<close> have "length (lstrip text) < length text" by (rule length_lstrip_less)
  with True show ?thesis by simp
next
  case False
  have "length (lstrip (drop (split_index m text) text)) \<le> length (drop (split_index m text) text)"
    by (rule length_lstrip_le)
  also have "\<dots> < length text" using False assms by simp
  finally show ?thesis .
qed

lemma wrap_loop_total:
  assumes "0 < m"
  shows "\<exists>lines. wrap_loop m s = Some lines \<and> lines \<noteq> []
           \<and> list_all (\<lambda>l. length l \<le> m) lines
           \<and> filter (\<lambda>c. \<not> isspace c) (concat lines) = filter (\<lambda>c. \<not> isspace c) s"
proof (induction "length s" arbitrary: s rule: less_induct)
  case less
  show ?case
  proof (cases "m < length s")
    case False
    then show ?thesis by (subst wrap_loop_step) simp
  next
    case True
    let ?k = "split_index m s"
    let ?rest = "lstrip (drop ?k s)"
    from rest_shorter [OF assms True] have "length ?rest < length s" .
    from less [OF this] obtain lines where
      r: "wrap_loop m ?rest = Some lines" and ne: "lines \<noteq> []"
      and len: "list_all (\<lambda>l. length l \<le> m) lines"
      and fl: "filter (\<lambda>c. \<not> isspace c) (concat lines) = filter (\<lambda>c. \<not> isspace c) ?rest"
      by blast
    have w: "wrap_loop m s = Some (take ?k s # lines)"
      using True r by (subst wrap_loop_step) simp
    have l1: "length (take ?k s) \<le> m" using split_index_le [of m s] by simp
    have "filter (\<lambda>c. \<not> isspace c) (concat (take ?k s # lines))
          = filter (\<lambda>c. \<not> isspace c) (take ?k s) @ filter (\<lambda>c. \<not> isspace c) (drop ?k s)"
      using fl by (simp add: lstrip_def filter_dropWhile_not)
    also have "\<dots> = filter (\<lambda>c. \<not> isspace c) s"
      by (simp flip: filter_append)
    finally have f: "filter (\<lambda>c. \<not> isspace c) (concat (take ?k s # lines))
          = filter (\<lambda>c. \<not> isspace c) s" .
    from w l1 len f show ?thesis by simp
  qed
qed


lemma single_spaced_tl: "single_spaced (c # cs) \<Longrightarrow> single_spaced cs"
  by (cases cs) auto

lemma single_spaced_drop: "single_spaced s \<Longrightarrow> single_spaced (drop k s)"
proof (induction k arbitrary: s)
  case 0
  then show ?case by simp
next
  case (Suc k)
  then show ?case by (cases s) (auto dest: single_spaced_tl)
qed

lemma every_token_below_drop: "every_token_below m s \<Longrightarrow> every_token_below m (drop k s)"
proof (induction k arbitrary: s)
  case 0
  then show ?case by simp
next
  case (Suc k)
  then show ?case by (cases s) auto
qed

lemma single_spaced_hd: "single_spaced (c # cs) \<Longrightarrow> isspace c \<Longrightarrow> c = CHR '' ''"
  by (cases cs) auto

lemma single_spaced_adjacent: "single_spaced (CHR '' '' # d # cs) \<Longrightarrow> \<not> isspace d"
proof
  assume a: "single_spaced (CHR '' '' # d # cs)" and b: "isspace d"
  from a have "single_spaced (d # cs)" by simp
  then have "d = CHR '' ''" using b by (rule single_spaced_hd)
  with a show False by simp
qed

lemma join_Cons: "ys \<noteq> [] \<Longrightarrow> join sep (x # ys) = x @ sep @ join sep ys"
  by (cases ys) simp_all

lemma wrap_loop_join:
  assumes "0 < m"
  shows "single_spaced s \<Longrightarrow> every_token_below m s \<Longrightarrow>
         \<exists>lines. wrap_loop m s = Some lines \<and> lines \<noteq> [] \<and> join '' '' lines = s"
proof (induction "length s" arbitrary: s rule: less_induct)
  case less
  show ?case
  proof (cases "m < length s")
    case False
    then show ?thesis by (subst wrap_loop_step) simp
  next
    case True
    then obtain c cs where s: "s = c # cs" by (cases s) auto
    from less.prems(2) True have "CHR '' '' \<in> set (take m s)"
      unfolding s by auto
    then obtain i where r: "rfind s CHR '' '' m = Some i"
      unfolding rfind_def using rfind_from_None [of "CHR '' ''" "take m s"] by fastforce
    then have k: "split_index m s = i" by (simp add: split_index_def)
    from rfind_Some [OF r] have im: "i < m" and si: "s ! i = CHR '' ''" by simp_all
    with True have i1: "Suc i < length s" by simp
    then have d0: "drop i s = CHR '' '' # drop (Suc i) s"
      using si by (simp flip: Cons_nth_drop_Suc)
    from i1 have d1: "drop (Suc i) s = s ! Suc i # drop (Suc (Suc i)) s"
      by (simp flip: Cons_nth_drop_Suc)
    from less.prems(1) have "single_spaced (drop i s)" by (rule single_spaced_drop)
    then have "\<not> isspace (s ! Suc i)"
      unfolding d0 by (subst (asm) d1) (rule single_spaced_adjacent)
    then have rest: "lstrip (drop i s) = drop (Suc i) s"
      unfolding d0 lstrip_def by (subst (2) d1, subst d1) (simp add: isspace_space)
    have "length (drop (Suc i) s) < length s" using i1 by simp
    moreover have "single_spaced (drop (Suc i) s)"
      using less.prems(1) by (rule single_spaced_drop)
    moreover have "every_token_below m (drop (Suc i) s)"
      using less.prems(2) by (rule every_token_below_drop)
    ultimately obtain lines where
      w: "wrap_loop m (drop (Suc i) s) = Some lines" and ne: "lines \<noteq> []"
      and j: "join '' '' lines = drop (Suc i) s"
      using less.hyps by blast
    have w': "wrap_loop m s = Some (take i s # lines)"
      using True w by (subst wrap_loop_step) (simp add: k rest)
    have "join '' '' (take i s # lines) = take i s @ '' '' @ drop (Suc i) s"
      using ne j by (simp add: join_Cons)
    also have "\<dots> = take i s @ drop i s" by (simp add: d0)
    also have "\<dots> = s" by simp
    finally show ?thesis using w' by simp
  qed
qed


lemma break_ok_length: "break_ok m l g \<Longrightarrow> length (break_blank m l) \<le> length g"
  by (cases g) (auto simp: break_ok_def break_blank_def)

lemma break_ok_exact:
  "break_ok m l g \<Longrightarrow> length g = length (break_blank m l) \<Longrightarrow> g = break_blank m l"
  by (cases g) (auto simp: break_ok_def break_blank_def)

lemma weave_rejoin:
  "length lines = Suc (length gaps) \<Longrightarrow>
   list_all2 (\<lambda>l g. g = break_blank m l) (butlast lines) gaps \<Longrightarrow>
   weave lines gaps = rejoin m lines"
proof (induction gaps arbitrary: lines)
  case Nil
  then show ?case by (cases lines) auto
next
  case (Cons g gaps)
  then obtain l l' ls where lines: "lines = l # l' # ls"
    by (cases lines; cases "tl lines") auto
  with Cons.prems have "length (l' # ls) = Suc (length gaps)"
    and "g = break_blank m l"
    and "list_all2 (\<lambda>l g. g = break_blank m l) (butlast (l' # ls)) gaps"
    by simp_all
  with Cons.IH [of "l' # ls"] show ?case by (simp add: lines)
qed

lemma rejoin_length:
  "length lines = Suc (length gaps) \<Longrightarrow>
   list_all2 (break_ok m) (butlast lines) gaps \<Longrightarrow>
   length (rejoin m lines) \<le> length (weave lines gaps)
   \<and> (length (rejoin m lines) = length (weave lines gaps)
        \<longrightarrow> list_all2 (\<lambda>l g. g = break_blank m l) (butlast lines) gaps)"
proof (induction gaps arbitrary: lines)
  case Nil
  then show ?case by (cases lines) auto
next
  case (Cons g gaps)
  then obtain l l' ls where lines: "lines = l # l' # ls"
    by (cases lines; cases "tl lines") auto
  with Cons.prems have n: "length (l' # ls) = Suc (length gaps)"
    and b: "break_ok m l g"
    and r: "list_all2 (break_ok m) (butlast (l' # ls)) gaps"
    by simp_all
  from Cons.IH [OF n r]
  have le: "length (rejoin m (l' # ls)) \<le> length (weave (l' # ls) gaps)"
    and eq: "length (rejoin m (l' # ls)) = length (weave (l' # ls) gaps)
             \<Longrightarrow> list_all2 (\<lambda>l g. g = break_blank m l) (butlast (l' # ls)) gaps"
    by simp_all
  from break_ok_length [OF b] have bl: "length (break_blank m l) \<le> length g" .
  have "length (rejoin m lines) \<le> length (weave lines gaps')" if "gaps' = g # gaps" for gaps'
    using le bl that by (simp add: lines)
  moreover have "list_all2 (\<lambda>l g. g = break_blank m l) (butlast lines) (g # gaps)"
    if "length (rejoin m lines) = length (weave lines (g # gaps))"
  proof -
    from that le bl have "length g = length (break_blank m l)"
      and "length (rejoin m (l' # ls)) = length (weave (l' # ls) gaps)"
      by (simp_all add: lines)
    with break_ok_exact [OF b] eq show ?thesis by (simp add: lines)
  qed
  ultimately show ?case by blast
qed

lemma lstrip_fixed: "lstrip (c # cs) = c # cs \<Longrightarrow> \<not> isspace c"
proof
  assume a: "lstrip (c # cs) = c # cs" and b: "isspace c"
  then have "dropWhile isspace cs = c # cs" by (simp add: lstrip_def)
  then have "length (dropWhile isspace cs) = Suc (length cs)" by simp
  with length_dropWhile_le [of isspace cs] show False by simp
qed

lemma lstrip_take: "lstrip s = s \<Longrightarrow> lstrip (take k s) = take k s"
proof (cases s)
  case Nil
  then show ?thesis by (simp add: lstrip_def)
next
  case (Cons c cs)
  assume "lstrip s = s"
  with Cons have "\<not> isspace c" by (simp add: lstrip_fixed)
  with Cons show ?thesis by (cases k) (simp_all add: lstrip_def)
qed

lemma wrap_loop_first_line:
  assumes "wrap_loop m s = Some (l # ls)" and "lstrip s = s"
  shows "lstrip l = l"
proof (cases "m < length s")
  case False
  with assms show ?thesis by (subst (asm) wrap_loop_step) simp
next
  case True
  with assms(1) have "l = take (split_index m s) s"
    by (subst (asm) wrap_loop_step) (auto split: Option.bind_splits)
  with assms(2) show ?thesis by (simp add: lstrip_take)
qed

lemma lstrip_idem: "lstrip (lstrip s) = lstrip s"
  unfolding lstrip_def by (induction s) auto

lemma wrap_loop_pieces:
  assumes "0 < m"
  shows "\<exists>lines gaps. wrap_loop m s = Some lines \<and> length lines = Suc (length gaps)
           \<and> weave lines gaps = s
           \<and> list_all (\<lambda>l. length l \<le> m) lines
           \<and> list_all2 (break_ok m) (butlast lines) gaps
           \<and> list_all (\<lambda>l. lstrip l = l) (tl lines)"
proof (induction "length s" arbitrary: s rule: less_induct)
  case less
  show ?case
  proof (cases "m < length s")
    case False
    then have "wrap_loop m s = Some [s]" by (subst wrap_loop_step) simp
    with False have "wrap_loop m s = Some [s] \<and> length [s] = Suc (length ([]::string list))
        \<and> weave [s] [] = s \<and> list_all (\<lambda>l. length l \<le> m) [s]
        \<and> list_all2 (break_ok m) (butlast [s]) []
        \<and> list_all (\<lambda>l. lstrip l = l) (tl [s])"
      by simp
    then show ?thesis by blast
  next
    case True
    let ?k = "split_index m s"
    let ?d = "drop ?k s"
    let ?g = "takeWhile isspace ?d"
    let ?rest = "lstrip ?d"
    from rest_shorter [OF assms True] have "length ?rest < length s" .
    from less [OF this] obtain lines gaps where
      r: "wrap_loop m ?rest = Some lines" and n: "length lines = Suc (length gaps)"
      and wv: "weave lines gaps = ?rest"
      and len: "list_all (\<lambda>l. length l \<le> m) lines"
      and ok: "list_all2 (break_ok m) (butlast lines) gaps"
      and ns: "list_all (\<lambda>l. lstrip l = l) (tl lines)"
      by blast
    from n obtain l' ls where lines: "lines = l' # ls" by (cases lines) auto
    from r lines lstrip_idem [of ?d] have "lstrip l' = l'"
      by (intro wrap_loop_first_line [of m ?rest l' ls]) simp_all
    with ns lines have ns': "list_all (\<lambda>l. lstrip l = l) (tl (take ?k s # lines))"
      by simp
    have w: "wrap_loop m s = Some (take ?k s # lines)"
      using True r by (subst wrap_loop_step) simp
    have kl: "?k \<le> m" by (rule split_index_le)
    with True have lk: "length (take ?k s) = ?k" by simp
    have "?g @ ?rest = ?d" by (simp add: lstrip_def)
    then have "take ?k s @ ?g @ ?rest = s" by simp
    with wv have wv': "weave (take ?k s # lines) (?g # gaps) = s"
      by (simp add: lines)
    have ws: "list_all isspace ?g"
      by (auto simp: list_all_iff dest: set_takeWhileD)
    have b: "break_ok m (take ?k s) ?g"
    proof (cases "rfind s CHR '' '' m")
      case None
      then have k: "?k = m" by (simp add: split_index_def)
      from None have "CHR '' '' \<notin> set (take m s)"
        by (simp add: rfind_def rfind_from_None)
      with k lk ws show ?thesis by (simp add: break_ok_def)
    next
      case (Some i)
      then have k: "?k = i" by (simp add: split_index_def)
      from rfind_Some [OF Some] have "i < m" "i < length s" "s ! i = CHR '' ''" by simp_all
      then have "?d = CHR '' '' # drop (Suc i) s"
        by (simp add: k flip: Cons_nth_drop_Suc)
      then have "take 1 ?g = '' ''" by (simp add: isspace_space)
      with k lk ws \<open>i < m\<close> show ?thesis by (simp add: break_ok_def)
    qed
    have "length (take ?k s # lines) = Suc (length (?g # gaps))" using n by simp
    moreover have "list_all (\<lambda>l. length l \<le> m) (take ?k s # lines)"
      using len lk kl by simp
    moreover have "list_all2 (break_ok m) (butlast (take ?k s # lines)) (?g # gaps)"
      using ok b by (simp add: lines)
    ultimately show ?thesis using w wv' ns' by blast
  qed
qed

text \<open>
  Claim C6 (as amended). For every input string and every positive budget the layout of
  the tag-stripped text returns and every emitted line has at most budget characters: a
  line before a soft break is shorter than the budget, a line before a forced hard break
  has exactly budget characters and no blank. The stripped text is exactly the emitted
  lines with, after each line but the last, the whitespace removed there by
  \<^verbatim>\<open>lstrip\<close> (whitespace characters only, beginning with the blank of the break when
  the break is soft, and all of the whitespace there: no line but the first begins with
  whitespace), so the lines keep the non-whitespace characters of the text, in order. Concatenating the lines with a single blank put back at each soft break and
  nothing at a hard break gives back the stripped text exactly if and only if the
  whitespace removed is just that: the one blank at every soft break and nothing at every
  hard break.
\<close>

theorem wrap_field_layout:
  assumes "0 < m"
  shows "\<exists>lines gaps. wrap_field m (strip_tags s) = Some lines
           \<and> length lines = Suc (length gaps)
           \<and> weave lines gaps = strip_tags s
           \<and> list_all (\<lambda>l. length l \<le> m) lines
           \<and> list_all2 (break_ok m) (butlast lines) gaps
           \<and> list_all (\<lambda>l. lstrip l = l) (tl lines)
           \<and> filter (\<lambda>c. \<not> isspace c) (concat lines)
               = filter (\<lambda>c. \<not> isspace c) (strip_tags s)
           \<and> (rejoin m lines = strip_tags s
                \<longleftrightarrow> list_all2 (\<lambda>l g. g = break_blank m l) (butlast lines) gaps)"
proof -
  let ?t = "strip_tags s"
  have field: "wrap_field m ?t = wrap_loop m ?t"
  proof (cases "m < length ?t")
    case True
    then show ?thesis by (simp add: wrap_field_def)
  next
    case False
    then show ?thesis using wrap_loop_step [of m ?t] by (simp add: wrap_field_def)
  qed
  from wrap_loop_pieces [OF assms, of ?t] obtain lines gaps where
    w: "wrap_loop m ?t = Some lines" and n: "length lines = Suc (length gaps)"
    and wv: "weave lines gaps = ?t"
    and len: "list_all (\<lambda>l. length l \<le> m) lines"
    and ok: "list_all2 (break_ok m) (butlast lines) gaps"
    and ns: "list_all (\<lambda>l. lstrip l = l) (tl lines)"
    by blast
  from wrap_loop_total [OF assms, of ?t] w
  have fl: "filter (\<lambda>c. \<not> isspace c) (concat lines) = filter (\<lambda>c. \<not> isspace c) ?t"
    by auto
  have "rejoin m lines = ?t \<longleftrightarrow> list_all2 (\<lambda>l g. g = break_blank m l) (butlast lines) gaps"
  proof
    assume "rejoin m lines = ?t"
    with wv have "length (rejoin m lines) = length (weave lines gaps)" by simp
    with rejoin_length [OF n ok] show "list_all2 (\<lambda>l g. g = break_blank m l) (butlast lines) gaps"
      by blast
  next
    assume "list_all2 (\<lambda>l g. g = break_blank m l) (butlast lines) gaps"
    from weave_rejoin [OF n this] wv show "rejoin m lines = ?t" by simp
  qed
  with w n wv len ok ns fl show ?thesis unfolding field by blast
qed

theorem wrap_field_layout_witness:
  "(0::nat) < 5
   \<and> wrap_field 5 (strip_tags ''<i>aaaaaaa</i> bb cc'') = Some [''aaaaa'', ''aa'', ''bb cc'']
   \<and> weave [''aaaaa'', ''aa'', ''bb cc''] [[], '' ''] = strip_tags ''<i>aaaaaaa</i> bb cc''
   \<and> break_ok 5 ''aaaaa'' [] \<and> break_ok 5 ''aa'' '' ''
   \<and> rejoin 5 [''aaaaa'', ''aa'', ''bb cc''] = strip_tags ''<i>aaaaaaa</i> bb cc''"
proof -
  have st: "strip_tags ''<i>aaaaaaa</i> bb cc'' = ''aaaaaaa bb cc''"
    by (simp add: strip_tags_def)
  have w: "wrap_field 5 ''aaaaaaa bb cc'' = Some [''aaaaa'', ''aa'', ''bb cc'']"
    by (simp add: wrap_field_def wrap_loop.simps rfind_def lstrip_def isspace_def)
  have b: "break_ok 5 ''aaaaa'' []" "break_ok 5 ''aa'' '' ''"
    by (simp_all add: break_ok_def isspace_def)
  have j: "rejoin 5 [''aaaaa'', ''aa'', ''bb cc''] = ''aaaaaaa bb cc''"
    by (simp add: break_blank_def)
  have "(0::nat) < 5" by simp
  from wrap_field_layout [OF this, of "''<i>aaaaaaa</i> bb cc''"] w b j
  show ?thesis unfolding st by simp
qed

text \<open>
  The claim as stated fails in two ways. On a text with two blanks in a row the break is
  a soft one (a blank is found at index 4), \<^verbatim>\<open>lstrip\<close> removes both blanks, and
  neither a single blank nor nothing between the two lines gives the text back. On a
  text whose first token has exactly budget characters the break is a hard one (no blank
  among the first five characters), \<^verbatim>\<open>lstrip\<close> removes the blank that follows, and
  the lines with nothing put back at the hard break do not give the text back.
\<close>

theorem wrap_field_reconstruction_counterexample:
  "strip_tags ''aaaa  bbbb'' = ''aaaa  bbbb''
   \<and> rfind ''aaaa  bbbb'' CHR '' '' 5 = Some 4
   \<and> wrap_field 5 (strip_tags ''aaaa  bbbb'') = Some [''aaaa'', ''bbbb'']
   \<and> rejoin 5 [''aaaa'', ''bbbb''] = ''aaaa bbbb''
   \<and> join '' '' [''aaaa'', ''bbbb''] \<noteq> strip_tags ''aaaa  bbbb''
   \<and> concat [''aaaa'', ''bbbb''] \<noteq> strip_tags ''aaaa  bbbb''
   \<and> strip_tags ''aaaaa bbbbb'' = ''aaaaa bbbbb''
   \<and> rfind ''aaaaa bbbbb'' CHR '' '' 5 = None
   \<and> wrap_field 5 (strip_tags ''aaaaa bbbbb'') = Some [''aaaaa'', ''bbbbb'']
   \<and> rejoin 5 [''aaaaa'', ''bbbbb''] = ''aaaaabbbbb''
   \<and> rejoin 5 [''aaaaa'', ''bbbbb''] \<noteq> strip_tags ''aaaaa bbbbb''"
  by (simp add: strip_tags_def wrap_field_def wrap_loop.simps rfind_def lstrip_def isspace_def
      break_blank_def)

section \<open>Properties of retrieval\<close>

lemma get_paper_Inr:
  "efetch srv n pmid = Returns p \<Longrightarrow> get_paper srv pmid n = ([Efetch pmid], Inr p)"
  by (simp add: get_paper_def)

lemma attempts_succeed:
  "(\<And>k. k < n \<Longrightarrow> efetch srv (calls st + k) pmid = Returns p) \<Longrightarrow>
   attempts srv pmid n st =
     (replicate n (Efetch pmid),
      st\<lparr>calls := calls st + n, papers := papers st @ replicate n p\<rparr>, None)"
proof (induction n arbitrary: st)
  case 0
  show ?case by simp
next
  case (Suc n)
  from Suc.prems [of 0] have g: "get_paper srv pmid (calls st) = ([Efetch pmid], Inr p)"
    by (simp add: get_paper_Inr)
  let ?st = "st\<lparr>calls := Suc (calls st), papers := papers st @ [p]\<rparr>"
  have "efetch srv (calls ?st + k) pmid = Returns p" if "k < n" for k
    using Suc.prems [of "Suc k"] that by simp
  from Suc.IH [of ?st, OF this]
  have "attempts srv pmid n ?st =
          (replicate n (Efetch pmid),
           ?st\<lparr>calls := calls ?st + n, papers := papers ?st @ replicate n p\<rparr>, None)"
    by simp
  with g show ?case by (simp add: replicate_append_same)
qed

text \<open>
  Claim C10. When every fetch call for an identifier succeeds (here: returns the record
  \<open>p\<close>), the attempt loop still runs all \<open>attempt_number\<close> iterations: it makes
  \<open>attempt_number\<close> fetch calls and appends the record \<open>attempt_number\<close> times to
  \<^verbatim>\<open>papers\<close>.
\<close>

theorem attempts_no_early_exit:
  assumes "\<forall>k<attempt_number. efetch srv (calls st + k) pmid = Returns p"
  shows "attempts srv pmid attempt_number st =
           (replicate attempt_number (Efetch pmid),
            st\<lparr>calls := calls st + attempt_number,
               papers := papers st @ replicate attempt_number p\<rparr>,
            None)"
  using assms by (intro attempts_succeed) simp

theorem attempts_no_early_exit_witness:
  "efetch \<lparr>esearch = (\<lambda>q. IdList [''1'']), efetch = (\<lambda>n pmid. Returns \<lparr>PubmedArticle = []\<rparr>)\<rparr>
     (calls \<lparr>calls = 0, papers = []\<rparr> + 0) ''1'' = Returns \<lparr>PubmedArticle = []\<rparr>
   \<and> efetch \<lparr>esearch = (\<lambda>q. IdList [''1'']), efetch = (\<lambda>n pmid. Returns \<lparr>PubmedArticle = []\<rparr>)\<rparr>
     (calls \<lparr>calls = 0, papers = []\<rparr> + 1) ''1'' = Returns \<lparr>PubmedArticle = []\<rparr>
   \<and> attempts \<lparr>esearch = (\<lambda>q. IdList [''1'']), efetch = (\<lambda>n pmid. Returns \<lparr>PubmedArticle = []\<rparr>)\<rparr>
        ''1'' default_attempt_number \<lparr>calls = 0, papers = []\<rparr>
      = ([Efetch ''1'', Efetch ''1''],
         \<lparr>calls = 2, papers = [\<lparr>PubmedArticle = []\<rparr>, \<lparr>PubmedArticle = []\<rparr>]\<rparr>, None)"
proof -
  let ?srv = "\<lparr>esearch = (\<lambda>q. IdList [''1'']), efetch = (\<lambda>n pmid. Returns \<lparr>PubmedArticle = []\<rparr>)\<rparr>"
  have h: "\<forall>k<default_attempt_number.
             efetch ?srv (calls \<lparr>calls = 0, papers = []\<rparr> + k) ''1'' = Returns \<lparr>PubmedArticle = []\<rparr>"
    by simp
  from attempts_no_early_exit [OF h] show ?thesis
    by (simp add: default_attempt_number_def numeral_2_eq_2)
qed

text \<open>
  Claim C4 fails on the code. The one-second pause stands before the attempt loop, not
  inside it. With the default attempt number 2 and one identifier whose fetch succeeds,
  two fetch calls are made and the second comes right after the first, with no pause.
  When the first fetch fails with a status that the caller catches (404) and the second
  succeeds, the retry is made with no pause either.
\<close>

theorem retries_not_paused:
  "fst (fetch_pmids \<lparr>esearch = (\<lambda>q. IdList []), efetch = (\<lambda>n pmid. Returns \<lparr>PubmedArticle = []\<rparr>)\<rparr>
          default_attempt_number [''1''] \<lparr>calls = 0, papers = []\<rparr>)
   = [Sleep 1, Efetch ''1'', Efetch ''1'']
   \<and> \<not> paused_before_every_fetch None
        (fst (fetch_pmids
                \<lparr>esearch = (\<lambda>q. IdList []), efetch = (\<lambda>n pmid. Returns \<lparr>PubmedArticle = []\<rparr>)\<rparr>
                default_attempt_number [''1''] \<lparr>calls = 0, papers = []\<rparr>))
   \<and> fst (fetch_pmids
            \<lparr>esearch = (\<lambda>q. IdList []),
             efetch = (\<lambda>n pmid. if n = 0 then Raises (HTTPError (Some 404))
                                 else Returns \<lparr>PubmedArticle = []\<rparr>)\<rparr>
            default_attempt_number [''1''] \<lparr>calls = 0, papers = []\<rparr>)
   = [Sleep 1, Efetch ''1'', Print HTTPErrorEncountered, Print (FailedToRetrieve ''1''),
      Efetch ''1'']
   \<and> \<not> paused_before_every_fetch None
        (fst (fetch_pmids
                \<lparr>esearch = (\<lambda>q. IdList []),
                 efetch = (\<lambda>n pmid. if n = 0 then Raises (HTTPError (Some 404))
                                     else Returns \<lparr>PubmedArticle = []\<rparr>)\<rparr>
                default_attempt_number [''1''] \<lparr>calls = 0, papers = []\<rparr>))"
  by (simp add: default_attempt_number_def numeral_2_eq_2 get_paper_def)

section \<open>Properties of the lookup\<close>

text \<open>
  Claim C1 fails on the code. One identifier is answered with status 429 twice and then
  with a record, and the attempt budget is 3. The first 429 makes \<^verbatim>\<open>get_paper\<close> sleep
  10 seconds once and then raise \<^verbatim>\<open>UnboundLocalError\<close> at \<^verbatim>\<open>return paper\<close>; the
  caller catches \<^verbatim>\<open>HTTPError\<close> only, so the lookup ends with that exception after one
  fetch call: no record is returned and there is one backoff delay, not two. When the
  exception object has no \<^verbatim>\<open>response\<close> attribute the lookup ends with
  \<^verbatim>\<open>AttributeError\<close> and no backoff delay at all.
\<close>

theorem lookup_two_429_then_success:
  "lookup_pubmed
     \<lparr>esearch = (\<lambda>q. IdList [''1'']),
      efetch = (\<lambda>n pmid. if n < 2 then Raises (HTTPError (Some 429))
                          else Returns \<lparr>PubmedArticle = []\<rparr>)\<rparr>
     (Some \<lparr>email = ''a@b.c'', journals = [''Nature''], topics = [''crispr'']\<rparr>)
     (DateStr ''2024/07/03'', DateStr ''3000/01/01'') 3
   = ([Print (SearchingJournal ''Nature''),
       Esearch (combined_query ''crispr'' (DateStr ''2024/07/03'') (DateStr ''3000/01/01'') ''Nature''),
       Sleep 1, Efetch ''1'', Print Retrying429, Sleep 10],
      Inl UnboundLocalError)
   \<and> lookup_pubmed
     \<lparr>esearch = (\<lambda>q. IdList [''1'']),
      efetch = (\<lambda>n pmid. if n < 2 then Raises (HTTPError None)
                          else Returns \<lparr>PubmedArticle = []\<rparr>)\<rparr>
     (Some \<lparr>email = ''a@b.c'', journals = [''Nature''], topics = [''crispr'']\<rparr>)
     (DateStr ''2024/07/03'', DateStr ''3000/01/01'') 3
   = ([Print (SearchingJournal ''Nature''),
       Esearch (combined_query ''crispr'' (DateStr ''2024/07/03'') (DateStr ''3000/01/01'') ''Nature''),
       Sleep 1, Efetch ''1''],
      Inl AttributeError)"
  by (simp add: lookup_pubmed_def get_pmids_def get_paper_def numeral_3_eq_3)

text \<open>
  Claim C8 fails on the code when the user enters the dates. \<^verbatim>\<open>ask_user_date\<close> then
  returns \<^verbatim>\<open>datetime\<close> objects, and the f-string of the query writes them as
  \<^verbatim>\<open>YYYY-MM-DD 00:00:00\<close>, not as \<^verbatim>\<open>YYYY/MM/DD\<close>. In default mode the dates stay
  strings in the form \<^verbatim>\<open>YYYY/MM/DD\<close>.
\<close>

theorem entered_dates_query_format:
  "ask_user_date (2024, 7, 3) ''n'' ''2020/03/05'' ''2020/04/06''
     = Inr (DateTime 2020 3 5, DateTime 2020 4 6)
   \<and> fst (lookup_pubmed \<lparr>esearch = (\<lambda>q. IdList []), efetch = (\<lambda>n pmid. Raises KeyError)\<rparr>
            (Some \<lparr>email = ''a@b.c'', journals = [''Nature''], topics = [''crispr'']\<rparr>)
            (DateTime 2020 3 5, DateTime 2020 4 6) default_attempt_number)
     = [Print (SearchingJournal ''Nature''),
        Esearch (''crispr AND ('' @ [CHR 0x22] @ ''2020-03-05 00:00:00'' @ [CHR 0x22]
                 @ ''[Date - Entry] : '' @ [CHR 0x22] @ ''2020-04-06 00:00:00'' @ [CHR 0x22]
                 @ ''[Date - Entry]) AND '' @ [CHR 0x22] @ ''Nature'' @ [CHR 0x22] @ ''[Journal]'')]
   \<and> ask_user_date (2024, 7, 3) ''y'' [] []
     = Inr (DateStr ''2024/07/03'', DateStr ''3000/01/01'')"
proof -
  have d1: "strptime ''2020/03/05'' = Inr (2020, 3, 5)"
    by (simp add: strptime_def year_field_def month_field_def day_field_def is_digit_def
        int_of_def digit_value_def days_in_month_def Let_def)
  have d2: "strptime ''2020/04/06'' = Inr (2020, 4, 6)"
    by (simp add: strptime_def year_field_def month_field_def day_field_def is_digit_def
        int_of_def digit_value_def days_in_month_def leap_def Let_def)
  have a: "ask_user_date (2024, 7, 3) ''n'' ''2020/03/05'' ''2020/04/06''
             = Inr (DateTime 2020 3 5, DateTime 2020 4 6)"
    by (simp add: ask_user_date_def validate_date_def d1 d2 lower_def)
  have s1: "str_date (DateTime 2020 3 5) = ''2020-03-05 00:00:00''"
    by (simp add: str_date_def zero_pad_def str_nat.simps digit_def)
  have s2: "str_date (DateTime 2020 4 6) = ''2020-04-06 00:00:00''"
    by (simp add: str_date_def zero_pad_def str_nat.simps digit_def)
  have q: "fst (lookup_pubmed \<lparr>esearch = (\<lambda>q. IdList []), efetch = (\<lambda>n pmid. Raises KeyError)\<rparr>
            (Some \<lparr>email = ''a@b.c'', journals = [''Nature''], topics = [''crispr'']\<rparr>)
            (DateTime 2020 3 5, DateTime 2020 4 6) default_attempt_number)
     = [Print (SearchingJournal ''Nature''),
        Esearch (''crispr AND ('' @ [CHR 0x22] @ ''2020-03-05 00:00:00'' @ [CHR 0x22]
                 @ ''[Date - Entry] : '' @ [CHR 0x22] @ ''2020-04-06 00:00:00'' @ [CHR 0x22]
                 @ ''[Date - Entry]) AND '' @ [CHR 0x22] @ ''Nature'' @ [CHR 0x22] @ ''[Journal]'')]"
    by (simp add: lookup_pubmed_def get_pmids_def combined_query_def s1 s2)
  have b: "ask_user_date (2024, 7, 3) ''y'' [] [] = Inr (DateStr ''2024/07/03'', DateStr ''3000/01/01'')"
    by (simp add: ask_user_date_def lower_def strftime_def zero_pad_def str_nat.simps digit_def
        end_date_default_def)
  from a q b show ?thesis by blast
qed


lemma searches_append: "searches (xs @ ys) = searches xs @ searches ys"
  by (simp add: searches_def)

lemma searches_get_paper: "get_paper srv pmid n = (evs, res) \<Longrightarrow> searches evs = []"
  by (auto simp: get_paper_def searches_def
      split: fetch_response.splits exn.splits option.splits if_splits)

lemma searches_attempts: "attempts srv pmid n st = (evs, st', r) \<Longrightarrow> searches evs = []"
proof (induction n arbitrary: st evs st' r)
  case 0
  then show ?case by (simp add: searches_def)
next
  case (Suc n)
  obtain gevs res where g: "get_paper srv pmid (calls st) = (gevs, res)"
    by (cases "get_paper srv pmid (calls st)")
  then have sg: "searches gevs = []" by (rule searches_get_paper)
  show ?case
  proof (cases res)
    case (Inr p)
    obtain evs1 st1 r1 where
      a: "attempts srv pmid n (st\<lparr>calls := Suc (calls st), papers := papers st @ [p]\<rparr>)
            = (evs1, st1, r1)"
      by (metis prod_cases3)
    from Suc.prems g Inr a have "evs = gevs @ evs1" by simp
    with sg Suc.IH [OF a] show ?thesis by (simp add: searches_append)
  next
    case (Inl e)
    obtain evs1 st1 r1 where
      a: "attempts srv pmid n (st\<lparr>calls := Suc (calls st)\<rparr>) = (evs1, st1, r1)"
      by (metis prod_cases3)
    from Suc.prems g Inl a
    have "evs = gevs \<or> evs = gevs @ [Print HTTPErrorEncountered, Print (FailedToRetrieve pmid)] @ evs1"
      by (cases e) auto
    with sg Suc.IH [OF a] show ?thesis by (auto simp: searches_append) (simp add: searches_def)
  qed
qed

lemma searches_fetch_pmids:
  "fetch_pmids srv n pmids st = (evs, st', r) \<Longrightarrow> searches evs = []"
proof (induction pmids arbitrary: st evs st' r)
  case Nil
  then show ?case by (simp add: searches_def)
next
  case (Cons pmid pmids)
  obtain evs1 st1 r1 where a: "attempts srv pmid n st = (evs1, st1, r1)"
    by (metis prod_cases3)
  then have s1: "searches evs1 = []" by (rule searches_attempts)
  obtain evs2 st2 r2 where b: "fetch_pmids srv n pmids st1 = (evs2, st2, r2)"
    by (metis prod_cases3)
  then have s2: "searches evs2 = []" by (rule Cons.IH)
  from Cons.prems a b have "evs = Sleep 1 # evs1 \<or> evs = Sleep 1 # evs1 @ evs2"
    by (cases r1) auto
  with s1 s2 show ?case by (auto simp: searches_def)
qed

lemma keywords_loop_searches:
  "keywords_loop srv n dates journal kws st = (evs, st', None) \<Longrightarrow>
   searches evs = map (\<lambda>k. combined_query k (fst dates) (snd dates) journal) kws"
proof (induction kws arbitrary: st evs)
  case Nil
  then show ?case by (simp add: searches_def)
next
  case (Cons k kws)
  let ?q = "combined_query k (fst dates) (snd dates) journal"
  from Cons.prems obtain pmids where p: "get_pmids srv ?q = Inr pmids"
    by (cases "get_pmids srv ?q") (auto simp: Let_def)
  obtain evs1 st1 r1 where a: "fetch_pmids srv n pmids st = (evs1, st1, r1)"
    by (metis prod_cases3)
  then have s1: "searches evs1 = []" by (rule searches_fetch_pmids)
  from Cons.prems p a have r1: "r1 = None" by (cases r1) (auto simp: Let_def)
  obtain evs2 st2 r2 where b: "keywords_loop srv n dates journal kws st1 = (evs2, st2, r2)"
    by (metis prod_cases3)
  from Cons.prems p a r1 b have e: "evs = Esearch ?q # evs1 @ evs2" and "r2 = None" "st2 = st'"
    by (simp_all add: Let_def)
  with b have "searches evs2 = map (\<lambda>k. combined_query k (fst dates) (snd dates) journal) kws"
    using Cons.IH by blast
  with s1 e show ?case by (simp add: searches_def)
qed

lemma journals_loop_searches:
  "journals_loop srv n dates journal_list kws st = (evs, st', None) \<Longrightarrow>
   searches evs =
     concat (map (\<lambda>j. map (\<lambda>k. combined_query k (fst dates) (snd dates) j) kws) journal_list)"
proof (induction journal_list arbitrary: st evs)
  case Nil
  then show ?case by (simp add: searches_def)
next
  case (Cons j journal_list)
  obtain evs1 st1 r1 where a: "keywords_loop srv n dates j kws st = (evs1, st1, r1)"
    by (metis prod_cases3)
  from Cons.prems a have r1: "r1 = None" by (cases r1) auto
  with a have s1: "searches evs1 = map (\<lambda>k. combined_query k (fst dates) (snd dates) j) kws"
    using keywords_loop_searches by blast
  obtain evs2 st2 r2 where b: "journals_loop srv n dates journal_list kws st1 = (evs2, st2, r2)"
    by (metis prod_cases3)
  from Cons.prems a r1 b have e: "evs = Print (SearchingJournal j) # evs1 @ evs2"
    and "r2 = None" "st2 = st'"
    by simp_all
  with b have "searches evs2 =
     concat (map (\<lambda>j. map (\<lambda>k. combined_query k (fst dates) (snd dates) j) kws) journal_list)"
    using Cons.IH by blast
  with s1 e show ?case by (simp add: searches_def)
qed

text \<open>
  A lookup that completes sends one query for each pair of a journal and a topic, the
  journals in the outer loop and the topics in the inner one.
\<close>

lemma lookup_pubmed_queries:
  assumes "lookup_pubmed srv (Some cfg) (start_date, end_date) n = (evs, Inr ps)"
  shows "searches evs =
           concat (map (\<lambda>j. map (\<lambda>k. combined_query k start_date end_date j) (topics cfg))
                     (journals cfg))"
    and "length (searches evs) = length (journals cfg) * length (topics cfg)"
proof -
  obtain evs1 st1 r1 where
    a: "journals_loop srv n (start_date, end_date) (journals cfg) (topics cfg)
          \<lparr>calls = 0, papers = []\<rparr> = (evs1, st1, r1)"
    by (metis prod_cases3)
  with assms have "r1 = None" "evs1 = evs"
    by (cases r1; simp add: lookup_pubmed_def)+
  with a journals_loop_searches [of srv n "(start_date, end_date)"]
  show s: "searches evs =
           concat (map (\<lambda>j. map (\<lambda>k. combined_query k start_date end_date j) (topics cfg))
                     (journals cfg))"
    by simp
  show "length (searches evs) = length (journals cfg) * length (topics cfg)"
    unfolding s by (simp add: length_concat comp_def sum_list_triv)
qed

section \<open>Properties of the extraction\<close>

lemma extract_article_Break: "extract_article art = Break \<longleftrightarrow> lacks_title_or_abstract art"
  by (auto simp: extract_article_def lacks_title_or_abstract_def
      split: option.splits list.splits sum.splits)

lemma articles_loop_records:
  "articles_loop articles acc = Inr cs \<Longrightarrow>
   cs = acc @ records_before_break \<lparr>PubmedArticle = articles\<rparr>"
proof (induction articles arbitrary: acc)
  case Nil
  then show ?case by (simp add: records_before_break_def bodies_def List.map_filter_simps)
next
  case (Cons a articles)
  show ?case
  proof (cases "Option.bind (MedlineCitation a) Article")
    case None
    then have skip: "articles_loop (a # articles) acc = articles_loop articles acc"
      by (auto split: option.splits Option.bind_splits)
    from None have "bodies \<lparr>PubmedArticle = a # articles\<rparr> = bodies \<lparr>PubmedArticle = articles\<rparr>"
      by (simp add: bodies_def List.map_filter_simps)
    with Cons skip show ?thesis by (simp add: records_before_break_def)
  next
    case (Some art)
    then have b: "bodies \<lparr>PubmedArticle = a # articles\<rparr> = art # bodies \<lparr>PubmedArticle = articles\<rparr>"
      by (simp add: bodies_def List.map_filter_simps)
    from Some have step: "articles_loop (a # articles) acc =
        (case extract_article art of
           Break \<Rightarrow> Inr acc
         | Raise e \<Rightarrow> Inl e
         | Emit component \<Rightarrow> articles_loop articles (acc @ [component]))"
      by (auto split: option.splits Option.bind_splits)
    show ?thesis
    proof (cases "extract_article art")
      case Break
      then have "lacks_title_or_abstract art" by (simp add: extract_article_Break)
      with Cons.prems step Break b show ?thesis by (simp add: records_before_break_def)
    next
      case (Raise e)
      with Cons.prems step show ?thesis by simp
    next
      case (Emit c)
      then have "\<not> lacks_title_or_abstract art" using extract_article_Break [of art] by simp
      moreover from Cons.prems step Emit have "articles_loop articles (acc @ [c]) = Inr cs" by simp
      then have "cs = (acc @ [c]) @ records_before_break \<lparr>PubmedArticle = articles\<rparr>"
        by (rule Cons.IH)
      ultimately show ?thesis using b Emit by (simp add: records_before_break_def emitted_def)
    qed
  qed
qed

lemma papers_loop_records:
  "papers_loop paper_list acc = Inr cs \<Longrightarrow> cs = acc @ concat (map records_before_break paper_list)"
proof (induction paper_list arbitrary: acc)
  case Nil
  then show ?case by simp
next
  case (Cons p paper_list)
  from Cons.prems obtain cs1 where a: "articles_loop (PubmedArticle p) acc = Inr cs1"
    and r: "papers_loop paper_list cs1 = Inr cs"
    by (auto split: sum.splits)
  have "\<lparr>PubmedArticle = PubmedArticle p\<rparr> = p" by simp
  with articles_loop_records [OF a] have "cs1 = acc @ records_before_break p" by simp
  with Cons.IH [OF r] show ?case by simp
qed


text \<open>
  Claim C5 (as amended). Extraction goes through the raw records in order and through
  the articles of each raw record in order. An article without a title field or without
  an abstract text yields no record, not even a partial one, and ends the processing of
  its raw record: the articles after it in the same raw record yield no record either.
  The articles before it, and the articles of the other raw records, yield their records;
  the result is the deduplicated list of these.
\<close>

theorem get_paper_info_stops_at_break:
  "get_paper_info paper_list = Inr cs \<Longrightarrow>
   cs = remove_duplicates (concat (map records_before_break paper_list))"
proof -
  assume "get_paper_info paper_list = Inr cs"
  then obtain cs0 where l: "papers_loop paper_list [] = Inr cs0" and c: "cs = remove_duplicates cs0"
    by (auto simp: get_paper_info_def split: sum.splits)
  from papers_loop_records [OF l] c show ?thesis by simp
qed

theorem get_paper_info_stops_at_break_witness:
  "get_paper_info
     [\<lparr>PubmedArticle = [article_with (Some ''A'') (Some ''a''),
                        article_with (Some ''B'') None,
                        article_with (Some ''C'') (Some ''c'')]\<rparr>,
      \<lparr>PubmedArticle = [article_with (Some ''D'') (Some ''d'')]\<rparr>]
     = Inr [plain_component ''A'' ''a'', plain_component ''D'' ''d'']
   \<and> [plain_component ''A'' ''a'', plain_component ''D'' ''d'']
     = remove_duplicates (concat (map records_before_break
         [\<lparr>PubmedArticle = [article_with (Some ''A'') (Some ''a''),
                            article_with (Some ''B'') None,
                            article_with (Some ''C'') (Some ''c'')]\<rparr>,
          \<lparr>PubmedArticle = [article_with (Some ''D'') (Some ''d'')]\<rparr>]))"
proof -
  have e: "get_paper_info
     [\<lparr>PubmedArticle = [article_with (Some ''A'') (Some ''a''),
                        article_with (Some ''B'') None,
                        article_with (Some ''C'') (Some ''c'')]\<rparr>,
      \<lparr>PubmedArticle = [article_with (Some ''D'') (Some ''d'')]\<rparr>]
     = Inr [plain_component ''A'' ''a'', plain_component ''D'' ''d'']"
    by (simp add: get_paper_info_def extract_article_def article_with_def plain_component_def
        authors_of_def remove_duplicates_def)
  from get_paper_info_stops_at_break [OF e] e show ?thesis by simp
qed

text \<open>
  The claim as stated fails when an article without a title is followed by a complete
  article in the same raw record: the complete article, which yields its record when it
  is alone, yields none.
\<close>

theorem later_article_dropped_counterexample:
  "get_paper_info [\<lparr>PubmedArticle = [article_with (Some ''T'') (Some ''b'')]\<rparr>]
     = Inr [plain_component ''T'' ''b'']
   \<and> get_paper_info
       [\<lparr>PubmedArticle = [article_with None (Some ''a''), article_with (Some ''T'') (Some ''b'')]\<rparr>]
     = Inr []"
  by (simp add: get_paper_info_def extract_article_def article_with_def plain_component_def
      authors_of_def remove_duplicates_def)

section \<open>Properties of the presentation and of the run\<close>

text \<open>
  Claim C7 fails on the code. A record with the affiliations MIT, Yale, MIT, Yale, MIT is followed
  by a record without an affiliation list: the institutions line of the second slide
  repeats the counts of the first record. When the first record rendered has no
  affiliation list, the variable is unbound and the report ends with
  \<^verbatim>\<open>UnboundLocalError\<close>.
\<close>

theorem institutions_carried_over:
  "component_slides
     [(plain_component ''A'' ''a'')\<lparr>Institution := Some [''MIT'', ''Yale'', ''MIT'', ''Yale'', ''MIT'']\<rparr>,
      plain_component ''B'' ''b''] None
   = Inr [BlankSlide [[], ''A'', [], ''a'', ''Journal: Not available'' @ [CHR 0x0A],
                      ''DOI: N'' @ [CHR 0x0A], [],
                      ''Authors: N, o,  , a, u, t, h, o, r, s,  , a, v, a, i, l, a, b, l, e'',
                      ''Institutions: MIT 3; Yale 2''],
          BlankSlide [[], ''B'', [], ''b'', ''Journal: Not available'' @ [CHR 0x0A],
                      ''DOI: N'' @ [CHR 0x0A], [],
                      ''Authors: N, o,  , a, u, t, h, o, r, s,  , a, v, a, i, l, a, b, l, e'',
                      ''Institutions: MIT 3; Yale 2'']]
   \<and> component_slides [plain_component ''B'' ''b''] None = Inl UnboundLocalError"
proof -
  have t: "institution_text [(''MIT'', 3), (''Yale'', 2)] = ''Institutions: MIT 3; Yale 2''"
    by (simp add: institution_text_def top_two_institutions_def str_nat.simps digit_def)
  have c: "count_institutions (Some [''MIT'', ''Yale'', ''MIT'', ''Yale'', ''MIT'']) None = Some [(''MIT'', 3), (''Yale'', 2)]"
    by (simp add: count_institutions_def)
  have r75: "run_texts 75 s = [s]" if "length s \<le> 75" for s
    using that by (simp add: run_texts_def wrap_field_def)
  have r115: "run_texts 115 s = [s]" if "length s \<le> 115" for s
    using that by (simp add: run_texts_def wrap_field_def)
  have r170: "run_texts 170 s = [s]" if "length s \<le> 170" for s
    using that by (simp add: run_texts_def wrap_field_def)
  have st: "strip_tags ''A'' = ''A''" "strip_tags ''a'' = ''a''"
    "strip_tags ''B'' = ''B''" "strip_tags ''b'' = ''b''"
    by (simp_all add: strip_tags_def)
  have a: "authors_runs (Some (Str ''No authors available''))
           = [[], ''Authors: N, o,  , a, u, t, h, o, r, s,  , a, v, a, i, l, a, b, l, e'']"
    by (simp add: authors_runs_def r170)
  have s1: "component_slide ((plain_component ''A'' ''a'')\<lparr>Institution := Some [''MIT'', ''Yale'', ''MIT'', ''Yale'', ''MIT'']\<rparr>) None
      = Inr (BlankSlide [[], ''A'', [], ''a'', ''Journal: Not available'' @ [CHR 0x0A],
                      ''DOI: N'' @ [CHR 0x0A], [],
                      ''Authors: N, o,  , a, u, t, h, o, r, s,  , a, v, a, i, l, a, b, l, e'',
                      ''Institutions: MIT 3; Yale 2''], Some [(''MIT'', 3), (''Yale'', 2)])"
    by (simp add: component_slide_def plain_component_def date_line_def doi_line_def a c t st
        r75 r115 institution_runs_def)
  have s2: "component_slide (plain_component ''B'' ''b'') (Some [(''MIT'', 3), (''Yale'', 2)])
      = Inr (BlankSlide [[], ''B'', [], ''b'', ''Journal: Not available'' @ [CHR 0x0A],
                      ''DOI: N'' @ [CHR 0x0A], [],
                      ''Authors: N, o,  , a, u, t, h, o, r, s,  , a, v, a, i, l, a, b, l, e'',
                      ''Institutions: MIT 3; Yale 2''], Some [(''MIT'', 3), (''Yale'', 2)])"
    by (simp add: component_slide_def plain_component_def date_line_def doi_line_def a t st
        r75 r115 institution_runs_def count_institutions_def)
  have s3: "component_slide (plain_component ''B'' ''b'') None = Inl UnboundLocalError"
    by (simp add: component_slide_def plain_component_def date_line_def doi_line_def
        institution_runs_def count_institutions_def)
  from s1 s2 s3 show ?thesis by simp
qed

lemma example_config_file:
  "read_config_file (config_txt (example_world s ex)) = Inr (Some example_config)"
  by (simp add: example_world_def example_config_def read_config_file_def count_def strip_def
      lstrip_def isspace_def splitlines_def is_line_boundary_def)

lemma example_date_range:
  "ask_user_date (clock_week_ago (example_world s ex)) (running_mode (example_world s ex))
     (start_input (example_world s ex)) (end_input (example_world s ex))
   = Inr example_dates"
  by (simp add: example_world_def example_dates_def ask_user_date_def lower_def strftime_def
      zero_pad_def str_nat.simps digit_def end_date_default_def)

lemma example_lookup:
  "lookup_pubmed no_hits (Some example_config) example_dates default_attempt_number
   = ([Print (SearchingJournal ''Nature''),
       Esearch (combined_query ''crispr'' (DateStr ''2024/07/03'') (DateStr ''3000/01/01'') ''Nature'')],
      Inr [])"
  by (simp add: lookup_pubmed_def no_hits_def example_config_def example_dates_def get_pmids_def)

text \<open>
  Claim C2 fails on the code. The search finds nothing and no file
  \<^verbatim>\<open>publications.pptx\<close> exists: the run prints the closing message for no results
  (which says that \<^verbatim>\<open>publications.pptx\<close> has not been updated), then calls
  \<^verbatim>\<open>get_pptx\<close> all the same, which writes a presentation of four slides to
  \<^verbatim>\<open>publications.pptx\<close>.
\<close>

theorem no_results_still_writes_file:
  "main (example_world no_hits (\<lambda>path. False))
   = ([Print Opener, Print ReadingConfigFile, Print LookingUpPapers,
       Print (SearchingJournal ''Nature''),
       Esearch (combined_query ''crispr'' (DateStr ''2024/07/03'') (DateStr ''3000/01/01'') ''Nature''),
       Print GettingPaperInfo, Print Closer0, Print PreparePptx,
       PathExists ''publications.pptx'', Save ''publications.pptx''],
      Some [intro_slide, query_slide_1 (2024, 7, 10) example_config example_dates,
            query_slide_2 example_config, journals_slide []],
      None)"
proof -
  let ?w = "example_world no_hits (\<lambda>path. False)"
  have w: "remote ?w = no_hits" "clock_today ?w = (2024, 7, 10)" "file_exists ?w = (\<lambda>path. False)"
    by (simp_all add: example_world_def)
  have i: "get_paper_info [] = Inr []"
    by (simp add: get_paper_info_def remove_duplicates_def)
  have p: "get_pptx (\<lambda>path. False) (2024, 7, 10) example_dates (Some example_config) []
             ''publications.pptx''
           = ([PathExists ''publications.pptx'', Save ''publications.pptx''],
              Some [intro_slide, query_slide_1 (2024, 7, 10) example_config example_dates,
                    query_slide_2 example_config, journals_slide []],
              None)"
    by (simp add: get_pptx_def)
  show ?thesis
    by (simp add: main_def example_config_file example_date_range w example_lookup i p)
qed

text \<open>
  Claim C3 (as amended). In every run where a file with the output filename exists, no
  presentation is written, so the existing file is neither overwritten nor truncated.
  The test for the file is the first step of \<^verbatim>\<open>get_pptx\<close>, before any report content
  is built, and \<^verbatim>\<open>get_pptx\<close> is the last step of the run: whenever the configuration,
  the date range, the lookup and the extraction return, the events of the run are those
  of the lookup with all its network calls, then the test, then the message that the file
  already exists, and the run ends there without an exception.
\<close>

theorem existing_output_not_overwritten:
  assumes "file_exists w ''publications.pptx''"
  shows "fst (snd (main w)) = None
         \<and> (read_config_file (config_txt w) = Inr config_file_dict
            \<and> ask_user_date (clock_week_ago w) (running_mode w) (start_input w) (end_input w)
                = Inr start_end_date
            \<and> lookup_pubmed (remote w) config_file_dict start_end_date default_attempt_number
                = (levs, Inr paper_list)
            \<and> get_paper_info paper_list = Inr components
            \<longrightarrow> main w
                = ([Print Opener, Print ReadingConfigFile, Print LookingUpPapers] @ levs
                   @ [Print GettingPaperInfo,
                      Print (if length components = 0 then Closer0 else Closer1),
                      Print PreparePptx,
                      PathExists ''publications.pptx'',
                      Print (AlreadyExists ''publications.pptx'')],
                   None, None))"
proof -
  have g: "get_pptx (file_exists w) now dates cfg cs ''publications.pptx''
           = ([PathExists ''publications.pptx'', Print (AlreadyExists ''publications.pptx'')],
              None, None)" for now dates cfg cs
    using assms by (simp add: get_pptx_def)
  have "fst (snd (main w)) = None"
    by (simp add: main_def g split: sum.splits prod.splits)
  moreover have "main w
                = ([Print Opener, Print ReadingConfigFile, Print LookingUpPapers] @ levs
                   @ [Print GettingPaperInfo,
                      Print (if length components = 0 then Closer0 else Closer1),
                      Print PreparePptx,
                      PathExists ''publications.pptx'',
                      Print (AlreadyExists ''publications.pptx'')],
                   None, None)"
    if "read_config_file (config_txt w) = Inr config_file_dict"
      and "ask_user_date (clock_week_ago w) (running_mode w) (start_input w) (end_input w)
                = Inr start_end_date"
      and "lookup_pubmed (remote w) config_file_dict start_end_date default_attempt_number
                = (levs, Inr paper_list)"
      and "get_paper_info paper_list = Inr components"
    using that by (simp add: main_def g)
  ultimately show ?thesis by blast
qed

lemma one_hit_lookup:
  "lookup_pubmed one_hit (Some example_config) example_dates default_attempt_number
   = ([Print (SearchingJournal ''Nature''),
       Esearch (combined_query ''crispr'' (DateStr ''2024/07/03'') (DateStr ''3000/01/01'') ''Nature''),
       Sleep 1, Efetch ''1'', Efetch ''1''],
      Inr [\<lparr>PubmedArticle = [article_with (Some ''T'') (Some ''b'')]\<rparr>,
           \<lparr>PubmedArticle = [article_with (Some ''T'') (Some ''b'')]\<rparr>])"
  by (simp add: lookup_pubmed_def one_hit_def example_config_def example_dates_def get_pmids_def
      get_paper_def default_attempt_number_def numeral_2_eq_2)

lemma one_hit_paper_info:
  "get_paper_info [\<lparr>PubmedArticle = [article_with (Some ''T'') (Some ''b'')]\<rparr>,
                   \<lparr>PubmedArticle = [article_with (Some ''T'') (Some ''b'')]\<rparr>]
   = Inr [plain_component ''T'' ''b'']"
  by (simp add: get_paper_info_def extract_article_def article_with_def plain_component_def
      authors_of_def remove_duplicates_def)

theorem existing_output_not_overwritten_witness:
  "file_exists (example_world one_hit (\<lambda>path. path = ''publications.pptx'')) ''publications.pptx''
   \<and> fst (snd (main (example_world one_hit (\<lambda>path. path = ''publications.pptx'')))) = None
   \<and> main (example_world one_hit (\<lambda>path. path = ''publications.pptx''))
     = ([Print Opener, Print ReadingConfigFile, Print LookingUpPapers,
         Print (SearchingJournal ''Nature''),
         Esearch (combined_query ''crispr'' (DateStr ''2024/07/03'') (DateStr ''3000/01/01'') ''Nature''),
         Sleep 1, Efetch ''1'', Efetch ''1'',
         Print GettingPaperInfo, Print Closer1, Print PreparePptx,
         PathExists ''publications.pptx'', Print (AlreadyExists ''publications.pptx'')],
        None, None)"
proof -
  let ?w = "example_world one_hit (\<lambda>path. path = ''publications.pptx'')"
  have e: "file_exists ?w ''publications.pptx''"
    by (simp add: example_world_def)
  have r: "remote ?w = one_hit"
    by (simp add: example_world_def)
  note t = existing_output_not_overwritten [OF e, of "Some example_config" example_dates
    _ "[\<lparr>PubmedArticle = [article_with (Some ''T'') (Some ''b'')]\<rparr>,
        \<lparr>PubmedArticle = [article_with (Some ''T'') (Some ''b'')]\<rparr>]"
    "[plain_component ''T'' ''b'']"]
  from t e show ?thesis
    by (simp add: example_config_file example_date_range r one_hit_lookup one_hit_paper_info)
qed

text \<open>
  The claim as stated fails: with an existing \<^verbatim>\<open>publications.pptx\<close> the search call is
  made before the file is tested for, and the run ends without an exception.
\<close>

theorem existing_output_after_network_counterexample:
  "main (example_world no_hits (\<lambda>path. path = ''publications.pptx''))
   = ([Print Opener, Print ReadingConfigFile, Print LookingUpPapers,
       Print (SearchingJournal ''Nature''),
       Esearch (combined_query ''crispr'' (DateStr ''2024/07/03'') (DateStr ''3000/01/01'') ''Nature''),
       Print GettingPaperInfo, Print Closer0, Print PreparePptx,
       PathExists ''publications.pptx'', Print (AlreadyExists ''publications.pptx'')],
      None, None)"
proof -
  let ?w = "example_world no_hits (\<lambda>path. path = ''publications.pptx'')"
  have w: "remote ?w = no_hits" "clock_today ?w = (2024, 7, 10)"
    "file_exists ?w = (\<lambda>path. path = ''publications.pptx'')"
    by (simp_all add: example_world_def)
  have i: "get_paper_info [] = Inr []"
    by (simp add: get_paper_info_def remove_duplicates_def)
  show ?thesis
    by (simp add: main_def example_config_file example_date_range w example_lookup i get_pptx_def)
qed

end
